theory Spec2Isabelle
  imports Complex_Main "HOL-Library.Word"
begin

section \<open>Camera stabilisation module (flight/modules/CameraStab/camerastab.c)\<close>

text \<open>
  The module is one periodic callback, \<^verbatim>\<open>attitudeUpdated\<close>, with the helpers
  \<^verbatim>\<open>bound\<close> and \<^verbatim>\<open>applyFeedForward\<close>. It is embedded twice.

  \<^bold>\<open>Exact arithmetic.\<close> The first embedding reads C \<^verbatim>\<open>float\<close> values as real numbers and
  the literal \<^verbatim>\<open>0.001f\<close> as 1/1000. A division whose divisor is not a literal goes through
  \<open>fdiv\<close>, which has no result for a zero divisor; the absence of a result propagates to the
  caller. It carries the statements about the control flow and the algebraic form of the
  computation: the dead band of the axis lock, the mixer formulas, the guard of the filter,
  the decay step, the elapsed time and the failing fetch.

  \<^bold>\<open>Binary32 arithmetic.\<close> The second embedding (constants with the suffix \<open>_f\<close>) reads
  \<^verbatim>\<open>float\<close> as the type \<open>cfloat\<close>: a finite real, one of the two infinities, or NaN. Every
  operation rounds its exact result with a rounding function: \<open>fl32\<close> rounds to the nearest
  binary32 number, ties to even, and \<open>Fin\<close> does not round. Division by zero, the infinities
  and NaN behave as in IEEE 754 and every comparison with NaN is false, so every function
  has a result, as the C code has. It carries the statements in which rounding, a zero
  divisor or a special value decide: the range of the values handed to the setters, the
  filter with a zero response time, the acceleration limit and the divisions by the
  output range.

  Common to both:
  \<^item> The three-element settings and state arrays are functions from the axis enumeration.
  \<^item> The closed enumerations (axis, stabilisation mode, gimbal type, input selector) are
    datatypes, so the \<^verbatim>\<open>default: PIOS_Assert(0)\<close> branches of the switches have no
    counterpart.
  \<^item> The generated settings header is not part of the sources. Fields the code converts
    with a \<^verbatim>\<open>(float)\<close> cast are integers (\<open>int\<close>, converted by \<open>real_of_int\<close>); fields
    used in float arithmetic without a cast are reals.
  \<^item> \<^verbatim>\<open>portTickType\<close> is an unsigned 32-bit counter; the operating system's constant
    \<^verbatim>\<open>portTICK_RATE_MS\<close> and the two compile-time switches \<^verbatim>\<open>USE_GIMBAL_LPF\<close> and
    \<^verbatim>\<open>USE_GIMBAL_FF\<close> are parameters of the build.
\<close>

subsection \<open>Settings, inputs and state\<close>

datatype axis = Roll | Pitch | Yaw

datatype input_sel = InputAccessory nat | InputNone

datatype stab_mode = Attitude | AxisLock

datatype gimbal_type = Generic | YawRollPitch | YawPitchRoll | RollPitchMixed

record CameraStabSettingsData =
  Input :: "axis \<Rightarrow> input_sel"
  InputRange :: "axis \<Rightarrow> real"
  InputRate :: "axis \<Rightarrow> real"
  StabilizationMode :: "axis \<Rightarrow> stab_mode"
  OutputRange :: "axis \<Rightarrow> real"
  ResponseTime :: "axis \<Rightarrow> int"
  GimbalType :: gimbal_type
  FeedForward :: "axis \<Rightarrow> int"
  AccelTime :: "axis \<Rightarrow> int"
  DecelTime :: "axis \<Rightarrow> int"
  MaxAxisLockRate :: real
  MaxAccel :: int
  Servo1PitchReverse :: bool
  Servo2PitchReverse :: bool

text \<open>The module's private data, \<^verbatim>\<open>struct CameraStab_data\<close>.\<close>

record CameraStab_data =
  lastSysTime :: "32 word"
  inputs :: "axis \<Rightarrow> real"
  attitudeFiltered :: "axis \<Rightarrow> real"
  ffLastAttitude :: "axis \<Rightarrow> real"
  ffLastAttitudeFiltered :: "axis \<Rightarrow> real"
  ffFilterAccumulator :: "axis \<Rightarrow> real"

text \<open>What is fixed when the firmware is built.\<close>

record build_config =
  USE_GIMBAL_LPF :: bool
  USE_GIMBAL_FF :: bool
  portTICK_RATE_MS :: "32 word"

text \<open>
  What one invocation of the callback reads from its collaborators: whether the event's
  object is the attitude state, the settings (\<^verbatim>\<open>CameraStabSettingsGet\<close>), the tick counter
  (\<^verbatim>\<open>xTaskGetTickCount\<close>), the accessory channels (\<^verbatim>\<open>AccessoryDesiredInstGet\<close>, \<open>None\<close>
  when it returns non-zero) and the attitude (\<^verbatim>\<open>AttitudeStateRollGet\<close> and its siblings).
\<close>

record tick_inputs =
  evObjIsAttitudeState :: bool
  cameraStabSettings :: CameraStabSettingsData
  taskTickCount :: "32 word"
  accessoryDesired :: "nat \<Rightarrow> real option"
  attitudeState :: "axis \<Rightarrow> real"

text \<open>The setters of the \<^verbatim>\<open>CameraDesired\<close> object, and the calls made to them in order.\<close>

datatype camera_desired_field = RollOrServo1 | PitchOrServo2 | YawField

type_synonym sink = "(camera_desired_field \<times> real) list"

text \<open>The variables that live across the iterations of the axis loop.\<close>

record loop_state =
  csd :: CameraStab_data
  elevon_roll :: real
  desired :: sink

subsection \<open>Arithmetic helpers\<close>

definition SAMPLE_PERIOD_MS :: nat where
  "SAMPLE_PERIOD_MS = 10"

definition fdiv :: "real \<Rightarrow> real \<Rightarrow> real option" where
  "fdiv a b = (if b = 0 then None else Some (a / b))"

definition bound :: "real \<Rightarrow> real \<Rightarrow> real" where
  "bound val limit =
     (if val > limit then limit else if val < - limit then - limit else val)"

subsection \<open>Elapsed time (lines 159-163)\<close>

definition dT_millis_of :: "32 word \<Rightarrow> 32 word \<Rightarrow> 32 word \<Rightarrow> real" where
  "dT_millis_of tick_rate_ms lastTime thisSysTime =
     (if thisSysTime > lastTime
      then real (unat ((thisSysTime - lastTime) * tick_rate_ms))
      else real SAMPLE_PERIOD_MS)"

subsection \<open>Control input (lines 174-191)\<close>

definition processInput ::
  "CameraStabSettingsData \<Rightarrow> (nat \<Rightarrow> real option) \<Rightarrow> real \<Rightarrow> axis \<Rightarrow>
   CameraStab_data \<Rightarrow> CameraStab_data" where
  "processInput cameraStab accessory dT_millis i d =
     (case Input cameraStab i of
        InputNone \<Rightarrow> d
      | InputAccessory n \<Rightarrow>
          (case accessory n of
             None \<Rightarrow> d
           | Some accessoryVal \<Rightarrow>
               (case StabilizationMode cameraStab i of
                  Attitude \<Rightarrow>
                    d\<lparr>inputs := (inputs d)(i := accessoryVal * InputRange cameraStab i)\<rparr>
                | AxisLock \<Rightarrow>
                    (let input_rate = accessoryVal * InputRate cameraStab i in
                     if \<bar>input_rate\<bar> > MaxAxisLockRate cameraStab
                     then d\<lparr>inputs := (inputs d)(i :=
                            bound (inputs d i + input_rate * (1 / 1000) * dT_millis)
                                  (InputRange cameraStab i))\<rparr>
                     else d))))"

subsection \<open>Attitude low-pass filter (lines 210-215)\<close>

text \<open>
  The guard of the source is \<^verbatim>\<open>if (cameraStab.ResponseTime.data)\<close>: it tests the array
  itself, which is never null, so inside \<^verbatim>\<open>USE_GIMBAL_LPF\<close> the body runs for every axis.
  The filtered value is both stored and used as the attitude.
\<close>

definition lpfValue :: "real \<Rightarrow> real \<Rightarrow> real \<Rightarrow> real \<Rightarrow> real option" where
  "lpfValue rt dT_millis filtered attitude =
     fdiv ((rt * filtered) + (dT_millis * attitude)) (rt + dT_millis)"

definition applyLPF ::
  "build_config \<Rightarrow> CameraStabSettingsData \<Rightarrow> real \<Rightarrow> axis \<Rightarrow> real \<Rightarrow>
   CameraStab_data \<Rightarrow> (real \<times> CameraStab_data) option" where
  "applyLPF b cameraStab dT_millis i attitude d =
     (if USE_GIMBAL_LPF b
      then (case lpfValue (real_of_int (ResponseTime cameraStab i)) dT_millis
                   (attitudeFiltered d i) attitude of
              None \<Rightarrow> None
            | Some v \<Rightarrow> Some (v, d\<lparr>attitudeFiltered := (attitudeFiltered d)(i := v)\<rparr>))
      else Some (attitude, d))"

subsection \<open>Feed forward (lines 287-340)\<close>

definition gimbalTypeCorrection ::
  "CameraStabSettingsData \<Rightarrow> (axis \<Rightarrow> real) \<Rightarrow> axis \<Rightarrow> real option" where
  "gimbalTypeCorrection cameraStab att index =
     (case GimbalType cameraStab of
        Generic \<Rightarrow> Some 1
      | RollPitchMixed \<Rightarrow> Some 1
      | YawRollPitch \<Rightarrow>
          (if index = Roll
           then fdiv (OutputRange cameraStab Pitch - \<bar>att Pitch\<bar>) (OutputRange cameraStab Pitch)
           else Some 1)
      | YawPitchRoll \<Rightarrow>
          (if index = Pitch
           then fdiv (OutputRange cameraStab Roll - \<bar>att Roll\<bar>) (OutputRange cameraStab Roll)
           else Some 1))"

definition applyFeedForward ::
  "axis \<Rightarrow> real \<Rightarrow> real \<Rightarrow> CameraStabSettingsData \<Rightarrow> (axis \<Rightarrow> real) \<Rightarrow>
   CameraStab_data \<Rightarrow> (real \<times> CameraStab_data) option" where
  "applyFeedForward index dT_millis attitude cameraStab att d =
     (case gimbalTypeCorrection cameraStab att index of
        None \<Rightarrow> None
      | Some correction \<Rightarrow>
          (let accumulator = ffFilterAccumulator d index
                 + (attitude - ffLastAttitude d index)
                   * real_of_int (FeedForward cameraStab index) * correction;
               d1 = d\<lparr>ffLastAttitude := (ffLastAttitude d)(index := attitude)\<rparr>;
               attitude1 = attitude + accumulator
           in case fdiv (real_of_int (if accumulator > 0 then AccelTime cameraStab index
                                      else DecelTime cameraStab index)) dT_millis of
                None \<Rightarrow> None
              | Some filter0 \<Rightarrow>
                  (let filter = (if filter0 < 1 then 1 else filter0)
                   in case fdiv accumulator filter of
                        None \<Rightarrow> None
                      | Some q \<Rightarrow>
                          (let accumulator2 = accumulator - q;
                               d2 = d1\<lparr>ffFilterAccumulator :=
                                          (ffFilterAccumulator d1)(index := accumulator2)\<rparr>;
                               attitude2 = attitude1 + accumulator2;
                               delta = attitude2 - ffLastAttitudeFiltered d2 index;
                               maxDelta = real_of_int (MaxAccel cameraStab) * (1 / 1000) * dT_millis;
                               attitude3 =
                                 (if \<bar>delta\<bar> > maxDelta
                                  then ffLastAttitudeFiltered d2 index
                                       + (if delta > 0 then maxDelta else - maxDelta)
                                  else attitude2)
                           in Some (attitude3,
                                d2\<lparr>ffLastAttitudeFiltered :=
                                      (ffLastAttitudeFiltered d2)(index := attitude3)\<rparr>)))))"

definition applyFF ::
  "build_config \<Rightarrow> CameraStabSettingsData \<Rightarrow> (axis \<Rightarrow> real) \<Rightarrow> real \<Rightarrow> axis \<Rightarrow> real \<Rightarrow>
   CameraStab_data \<Rightarrow> (real \<times> CameraStab_data) option" where
  "applyFF b cameraStab att dT_millis i attitude d =
     (if USE_GIMBAL_FF b \<and> FeedForward cameraStab i \<noteq> 0
      then applyFeedForward i dT_millis attitude cameraStab att d
      else Some (attitude, d))"

subsection \<open>Output channels (lines 229-275)\<close>

definition servo1Mix :: "CameraStabSettingsData \<Rightarrow> real \<Rightarrow> real \<Rightarrow> real" where
  "servo1Mix cameraStab elevon_pitch elevon_r =
     (if Servo1PitchReverse cameraStab
      then ((1 - elevon_pitch) + elevon_r) / 2
      else (elevon_pitch + elevon_r) / 2)"

definition servo2Mix :: "CameraStabSettingsData \<Rightarrow> real \<Rightarrow> real \<Rightarrow> real" where
  "servo2Mix cameraStab elevon_pitch elevon_r =
     (if Servo2PitchReverse cameraStab
      then ((1 - elevon_pitch) - elevon_r) / 2
      else (elevon_pitch - elevon_r) / 2)"

fun setOutputChannels ::
  "CameraStabSettingsData \<Rightarrow> axis \<Rightarrow> real \<Rightarrow> real \<times> sink \<Rightarrow> real \<times> sink" where
  "setOutputChannels cameraStab Roll output (er, out) =
     (if GimbalType cameraStab = RollPitchMixed
      then (output, out)
      else (er, out @ [(RollOrServo1, output)]))"
| "setOutputChannels cameraStab Pitch output (er, out) =
     (if GimbalType cameraStab = RollPitchMixed
      then (er, out @ [(RollOrServo1, servo1Mix cameraStab output er),
                       (PitchOrServo2, servo2Mix cameraStab output er)])
      else (er, out @ [(PitchOrServo2, output)]))"
| "setOutputChannels cameraStab Yaw output (er, out) =
     (er, out @ [(YawField, output)])"

subsection \<open>One axis, and the callback\<close>

definition processAxis ::
  "build_config \<Rightarrow> tick_inputs \<Rightarrow> real \<Rightarrow> axis \<Rightarrow> loop_state \<Rightarrow> loop_state option" where
  "processAxis b env dT_millis i s =
     (let cameraStab = cameraStabSettings env;
          d0 = processInput cameraStab (accessoryDesired env) dT_millis i (csd s);
          attitude = attitudeState env i
      in case applyLPF b cameraStab dT_millis i attitude d0 of
           None \<Rightarrow> None
         | Some (attitude1, d1) \<Rightarrow>
             (case applyFF b cameraStab (attitudeState env) dT_millis i attitude1 d1 of
                None \<Rightarrow> None
              | Some (attitude2, d2) \<Rightarrow>
                  (case fdiv (attitude2 + inputs d2 i) (OutputRange cameraStab i) of
                     None \<Rightarrow> None
                   | Some q \<Rightarrow>
                       (let output = bound q 1;
                            (er, out) = setOutputChannels cameraStab i output
                                          (elevon_roll s, desired s)
                        in Some \<lparr>csd = d2, elevon_roll = er, desired = out\<rparr>))))"

fun processAxes ::
  "build_config \<Rightarrow> tick_inputs \<Rightarrow> real \<Rightarrow> axis list \<Rightarrow> loop_state \<Rightarrow> loop_state option" where
  "processAxes b env dT_millis [] s = Some s"
| "processAxes b env dT_millis (i # is) s =
     (case processAxis b env dT_millis i s of
        None \<Rightarrow> None
      | Some s' \<Rightarrow> processAxes b env dT_millis is s')"

definition attitudeUpdated ::
  "build_config \<Rightarrow> tick_inputs \<Rightarrow> CameraStab_data \<Rightarrow> (CameraStab_data \<times> sink) option" where
  "attitudeUpdated b env d =
     (if \<not> evObjIsAttitudeState env then Some (d, [])
      else
        (let thisSysTime = taskTickCount env;
             dT_millis = dT_millis_of (portTICK_RATE_MS b) (lastSysTime d) thisSysTime;
             d' = d\<lparr>lastSysTime := thisSysTime\<rparr>
         in case processAxes b env dT_millis [Roll, Pitch, Yaw]
                   \<lparr>csd = d', elevon_roll = 0, desired = []\<rparr> of
              None \<Rightarrow> None
            | Some s \<Rightarrow> Some (csd s, desired s)))"

subsection \<open>The feed-forward steps in the words of the specification (section 4.4)\<close>





subsection \<open>Combined channels with reversed pitch\<close>

text \<open>
  In the mixed geometry a servo whose pitch-reversal flag is set receives
  \<open>((1 - pitch) \<plusminus> roll) / 2\<close>; \<open>mixedReversed\<close> says that a setter is fed that way.
\<close>

definition mixedReversed :: "CameraStabSettingsData \<Rightarrow> camera_desired_field \<Rightarrow> bool" where
  "mixedReversed cs f \<longleftrightarrow>
     GimbalType cs = RollPitchMixed \<and>
     (f = RollOrServo1 \<and> Servo1PitchReverse cs \<or> f = PitchOrServo2 \<and> Servo2PitchReverse cs)"

subsection \<open>Sample configurations\<close>

text \<open>
  A build with both filters compiled in and 1 ms ticks, zeroed private data last updated
  at tick 100, and a callback at tick 110 with roll 45, pitch -30 and yaw 0. The settings
  vary: \<open>ex_settings\<close> has no input, no feed forward and a zero response time,
  \<open>ex_mixed\<close> mixes roll and pitch with servo 1 reversed, \<open>ex_lock\<close> integrates three
  accessory channels (the third of which cannot be fetched), \<open>ex_ff\<close> enables feed forward.
\<close>

definition ex_settings :: CameraStabSettingsData where
  "ex_settings =
     \<lparr>Input = (\<lambda>_. InputNone), InputRange = (\<lambda>_. 10), InputRate = (\<lambda>_. 50),
      StabilizationMode = (\<lambda>_. Attitude), OutputRange = (\<lambda>_. 30),
      ResponseTime = (\<lambda>_. 0), GimbalType = Generic, FeedForward = (\<lambda>_. 0),
      AccelTime = (\<lambda>_. 20), DecelTime = (\<lambda>_. 5), MaxAxisLockRate = 1, MaxAccel = 500,
      Servo1PitchReverse = False, Servo2PitchReverse = False\<rparr>"

definition ex_mixed :: CameraStabSettingsData where
  "ex_mixed = ex_settings\<lparr>GimbalType := RollPitchMixed, Servo1PitchReverse := True\<rparr>"

definition ex_lock :: CameraStabSettingsData where
  "ex_lock = ex_settings
     \<lparr>Input := (\<lambda>i. case i of Roll \<Rightarrow> InputAccessory 0 | Pitch \<Rightarrow> InputAccessory 1
                          | Yaw \<Rightarrow> InputAccessory 2),
      StabilizationMode := (\<lambda>_. AxisLock)\<rparr>"

definition ex_ff :: CameraStabSettingsData where
  "ex_ff = ex_settings\<lparr>FeedForward := (\<lambda>_. 2)\<rparr>"

definition ex_build :: build_config where
  "ex_build = \<lparr>USE_GIMBAL_LPF = True, USE_GIMBAL_FF = True, portTICK_RATE_MS = 1\<rparr>"

definition ex_csd :: CameraStab_data where
  "ex_csd = \<lparr>lastSysTime = 100, inputs = (\<lambda>_. 0), attitudeFiltered = (\<lambda>_. 0),
     ffLastAttitude = (\<lambda>_. 0), ffLastAttitudeFiltered = (\<lambda>_. 0),
     ffFilterAccumulator = (\<lambda>_. 0)\<rparr>"

definition ex_env :: "CameraStabSettingsData \<Rightarrow> tick_inputs" where
  "ex_env cs =
     \<lparr>evObjIsAttitudeState = True, cameraStabSettings = cs, taskTickCount = 110,
      accessoryDesired = (\<lambda>n. if n = 0 then Some (1 / 2) else if n = 1 then Some (1 / 100)
                              else None),
      attitudeState = (\<lambda>i. case i of Roll \<Rightarrow> 45 | Pitch \<Rightarrow> - 30 | Yaw \<Rightarrow> 0)\<rparr>"

section \<open>The module in binary32 arithmetic\<close>

subsection \<open>Binary32 values and rounding\<close>

text \<open>
  A \<^verbatim>\<open>float\<close> is a finite real, an infinity or NaN. Signed zeros are not distinguished:
  a zero divisor is read as +0.
\<close>

datatype cfloat = Fin real | PInf | NInf | NaN

text \<open>
  Rounding to the nearest binary32 number, ties to even: \<open>f32_expo x\<close> is the exponent of
  the binade of \<open>x\<close>, between -126 (which also holds the subnormal numbers) and 127; the
  unit in the last place is \<open>2 powi (f32_expo x - 23)\<close>; the result is the nearest multiple
  of that unit, and an infinity when its magnitude reaches \<open>2 powi 128\<close>.
\<close>

definition round_even :: "real \<Rightarrow> int" where
  "round_even y =
     (let f = \<lfloor>y\<rfloor>; d = y - of_int f
      in if d < 1 / 2 then f else if d > 1 / 2 then f + 1
         else if even f then f else f + 1)"

primrec f32_expo_below :: "nat \<Rightarrow> real \<Rightarrow> int" where
  "f32_expo_below 0 x = - 126"
| "f32_expo_below (Suc n) x =
     (if 2 powi (int (Suc n) - 126) \<le> x then int (Suc n) - 126 else f32_expo_below n x)"

definition f32_expo :: "real \<Rightarrow> int" where
  "f32_expo x = f32_expo_below 253 \<bar>x\<bar>"

definition fl32 :: "real \<Rightarrow> cfloat" where
  "fl32 x =
     (let u = 2 powi (f32_expo x - 23);
          r = of_int (round_even (x / u)) * u
      in if \<bar>r\<bar> \<ge> 2 powi 128 then (if x > 0 then PInf else NInf) else Fin r)"

text \<open>
  The operations of the C code on \<^verbatim>\<open>float\<close> operands: unary minus, \<^verbatim>\<open>fabsf\<close>, \<^verbatim>\<open>+\<close>, \<^verbatim>\<open>-\<close>,
  \<^verbatim>\<open>*\<close>, \<^verbatim>\<open>/\<close>, \<^verbatim>\<open><\<close> and \<^verbatim>\<open>>\<close>. The rounding function is a parameter.
\<close>

type_synonym rounding = "real \<Rightarrow> cfloat"

fun f_neg :: "cfloat \<Rightarrow> cfloat" where
  "f_neg (Fin x) = Fin (- x)"
| "f_neg PInf = NInf"
| "f_neg NInf = PInf"
| "f_neg NaN = NaN"

fun f_abs :: "cfloat \<Rightarrow> cfloat" where
  "f_abs (Fin x) = Fin \<bar>x\<bar>"
| "f_abs PInf = PInf"
| "f_abs NInf = PInf"
| "f_abs NaN = NaN"

fun is_neg :: "cfloat \<Rightarrow> bool" where
  "is_neg (Fin x) = (x < 0)"
| "is_neg NInf = True"
| "is_neg PInf = False"
| "is_neg NaN = False"

definition f_inf :: "bool \<Rightarrow> cfloat" where
  "f_inf negative = (if negative then NInf else PInf)"

fun f_add :: "rounding \<Rightarrow> cfloat \<Rightarrow> cfloat \<Rightarrow> cfloat" where
  "f_add rnd (Fin x) (Fin y) = rnd (x + y)"
| "f_add rnd NaN b = NaN"
| "f_add rnd a NaN = NaN"
| "f_add rnd PInf NInf = NaN"
| "f_add rnd NInf PInf = NaN"
| "f_add rnd PInf b = PInf"
| "f_add rnd NInf b = NInf"
| "f_add rnd a PInf = PInf"
| "f_add rnd a NInf = NInf"

definition f_sub :: "rounding \<Rightarrow> cfloat \<Rightarrow> cfloat \<Rightarrow> cfloat" where
  "f_sub rnd a b = f_add rnd a (f_neg b)"

fun f_mul :: "rounding \<Rightarrow> cfloat \<Rightarrow> cfloat \<Rightarrow> cfloat" where
  "f_mul rnd (Fin x) (Fin y) = rnd (x * y)"
| "f_mul rnd NaN b = NaN"
| "f_mul rnd a NaN = NaN"
| "f_mul rnd (Fin x) b = (if x = 0 then NaN else f_inf (is_neg (Fin x) \<noteq> is_neg b))"
| "f_mul rnd a (Fin y) = (if y = 0 then NaN else f_inf (is_neg a \<noteq> is_neg (Fin y)))"
| "f_mul rnd a b = f_inf (is_neg a \<noteq> is_neg b)"

fun f_div :: "rounding \<Rightarrow> cfloat \<Rightarrow> cfloat \<Rightarrow> cfloat" where
  "f_div rnd (Fin x) (Fin y) =
     (if y = 0 then (if x = 0 then NaN else f_inf (x < 0)) else rnd (x / y))"
| "f_div rnd NaN b = NaN"
| "f_div rnd a NaN = NaN"
| "f_div rnd (Fin x) b = Fin 0"
| "f_div rnd a (Fin y) = f_inf (is_neg a \<noteq> (y < 0))"
| "f_div rnd a b = NaN"

fun f_lt :: "cfloat \<Rightarrow> cfloat \<Rightarrow> bool" where
  "f_lt (Fin x) (Fin y) = (x < y)"
| "f_lt NaN b = False"
| "f_lt a NaN = False"
| "f_lt PInf b = False"
| "f_lt a NInf = False"
| "f_lt a b = True"

definition f_gt :: "cfloat \<Rightarrow> cfloat \<Rightarrow> bool" where
  "f_gt a b = f_lt b a"

subsection \<open>State and inputs\<close>

text \<open>
  The private data, the inputs of one invocation and the loop variables, with \<^verbatim>\<open>float\<close>
  fields of type \<open>cfloat\<close>. The settings are the record of the first embedding; a settings
  value enters a computation through the rounding function (a stored binary32 value is
  not changed by it), and \<^verbatim>\<open>0.001f\<close> is the rounded 1/1000.
\<close>

record CameraStab_data_f =
  lastSysTime_f :: "32 word"
  inputs_f :: "axis \<Rightarrow> cfloat"
  attitudeFiltered_f :: "axis \<Rightarrow> cfloat"
  ffLastAttitude_f :: "axis \<Rightarrow> cfloat"
  ffLastAttitudeFiltered_f :: "axis \<Rightarrow> cfloat"
  ffFilterAccumulator_f :: "axis \<Rightarrow> cfloat"

record tick_inputs_f =
  evObjIsAttitudeState_f :: bool
  cameraStabSettings_f :: CameraStabSettingsData
  taskTickCount_f :: "32 word"
  accessoryDesired_f :: "nat \<Rightarrow> cfloat option"
  attitudeState_f :: "axis \<Rightarrow> cfloat"

type_synonym sink_f = "(camera_desired_field \<times> cfloat) list"

record loop_state_f =
  csd_f :: CameraStab_data_f
  elevon_roll_f :: cfloat
  desired_f :: sink_f

subsection \<open>\<^verbatim>\<open>bound\<close> (lines 279-284) and the elapsed time (lines 159-163)\<close>

definition bound_f :: "cfloat \<Rightarrow> cfloat \<Rightarrow> cfloat" where
  "bound_f val limit =
     (if f_gt val limit then limit else if f_lt val (f_neg limit) then f_neg limit else val)"

definition dT_millis_f :: "rounding \<Rightarrow> 32 word \<Rightarrow> 32 word \<Rightarrow> 32 word \<Rightarrow> cfloat" where
  "dT_millis_f rnd tick_rate_ms lastTime thisSysTime =
     (if thisSysTime > lastTime
      then rnd (real (unat ((thisSysTime - lastTime) * tick_rate_ms)))
      else rnd (real SAMPLE_PERIOD_MS))"

subsection \<open>Control input (lines 174-191)\<close>

definition processInput_f ::
  "rounding \<Rightarrow> CameraStabSettingsData \<Rightarrow> (nat \<Rightarrow> cfloat option) \<Rightarrow> cfloat \<Rightarrow> axis \<Rightarrow>
   CameraStab_data_f \<Rightarrow> CameraStab_data_f" where
  "processInput_f rnd cameraStab accessory dT_millis i d =
     (case Input cameraStab i of
        InputNone \<Rightarrow> d
      | InputAccessory n \<Rightarrow>
          (case accessory n of
             None \<Rightarrow> d
           | Some accessoryVal \<Rightarrow>
               (case StabilizationMode cameraStab i of
                  Attitude \<Rightarrow>
                    d\<lparr>inputs_f := (inputs_f d)(i :=
                         f_mul rnd accessoryVal (rnd (InputRange cameraStab i)))\<rparr>
                | AxisLock \<Rightarrow>
                    (let input_rate = f_mul rnd accessoryVal (rnd (InputRate cameraStab i)) in
                     if f_gt (f_abs input_rate) (rnd (MaxAxisLockRate cameraStab))
                     then d\<lparr>inputs_f := (inputs_f d)(i :=
                            bound_f
                              (f_add rnd (inputs_f d i)
                                 (f_mul rnd (f_mul rnd input_rate (rnd (1 / 1000))) dT_millis))
                              (rnd (InputRange cameraStab i)))\<rparr>
                     else d))))"

subsection \<open>Attitude low-pass filter (lines 210-215)\<close>

text \<open>The guard tests the array, so inside \<^verbatim>\<open>USE_GIMBAL_LPF\<close> the body runs for every axis.\<close>

definition lpfValue_f :: "rounding \<Rightarrow> cfloat \<Rightarrow> cfloat \<Rightarrow> cfloat \<Rightarrow> cfloat \<Rightarrow> cfloat" where
  "lpfValue_f rnd rt dT_millis filtered attitude =
     f_div rnd (f_add rnd (f_mul rnd rt filtered) (f_mul rnd dT_millis attitude))
               (f_add rnd rt dT_millis)"

definition applyLPF_f ::
  "build_config \<Rightarrow> rounding \<Rightarrow> CameraStabSettingsData \<Rightarrow> cfloat \<Rightarrow> axis \<Rightarrow> cfloat \<Rightarrow>
   CameraStab_data_f \<Rightarrow> cfloat \<times> CameraStab_data_f" where
  "applyLPF_f b rnd cameraStab dT_millis i attitude d =
     (if USE_GIMBAL_LPF b
      then (let v = lpfValue_f rnd (rnd (real_of_int (ResponseTime cameraStab i))) dT_millis
                      (attitudeFiltered_f d i) attitude
            in (v, d\<lparr>attitudeFiltered_f := (attitudeFiltered_f d)(i := v)\<rparr>))
      else (attitude, d))"

subsection \<open>Feed forward (lines 287-340)\<close>

text \<open>
  \<open>maxDelta_f\<close> is line 333 and \<open>accelLimit_f\<close> lines 332-338; the steps before them
  are in \<open>applyFeedForward_f\<close>.
\<close>

definition gimbalTypeCorrection_f ::
  "rounding \<Rightarrow> CameraStabSettingsData \<Rightarrow> (axis \<Rightarrow> cfloat) \<Rightarrow> axis \<Rightarrow> cfloat" where
  "gimbalTypeCorrection_f rnd cameraStab att index =
     (case GimbalType cameraStab of
        Generic \<Rightarrow> Fin 1
      | RollPitchMixed \<Rightarrow> Fin 1
      | YawRollPitch \<Rightarrow>
          (if index = Roll
           then f_div rnd (f_sub rnd (rnd (OutputRange cameraStab Pitch)) (f_abs (att Pitch)))
                          (rnd (OutputRange cameraStab Pitch))
           else Fin 1)
      | YawPitchRoll \<Rightarrow>
          (if index = Pitch
           then f_div rnd (f_sub rnd (rnd (OutputRange cameraStab Roll)) (f_abs (att Roll)))
                          (rnd (OutputRange cameraStab Roll))
           else Fin 1))"

definition maxDelta_f :: "rounding \<Rightarrow> CameraStabSettingsData \<Rightarrow> cfloat \<Rightarrow> cfloat" where
  "maxDelta_f rnd cameraStab dT_millis =
     f_mul rnd (f_mul rnd (rnd (real_of_int (MaxAccel cameraStab))) (rnd (1 / 1000))) dT_millis"

definition accelLimit_f :: "rounding \<Rightarrow> cfloat \<Rightarrow> cfloat \<Rightarrow> cfloat \<Rightarrow> cfloat" where
  "accelLimit_f rnd maxDelta lastFiltered attitude =
     (let delta = f_sub rnd attitude lastFiltered
      in if f_gt (f_abs delta) maxDelta
         then f_add rnd lastFiltered (if f_gt delta (Fin 0) then maxDelta else f_neg maxDelta)
         else attitude)"

definition applyFeedForward_f ::
  "rounding \<Rightarrow> axis \<Rightarrow> cfloat \<Rightarrow> cfloat \<Rightarrow> CameraStabSettingsData \<Rightarrow> (axis \<Rightarrow> cfloat) \<Rightarrow>
   CameraStab_data_f \<Rightarrow> cfloat \<times> CameraStab_data_f" where
  "applyFeedForward_f rnd index dT_millis attitude cameraStab att d =
     (let correction = gimbalTypeCorrection_f rnd cameraStab att index;
          accumulator = f_add rnd (ffFilterAccumulator_f d index)
            (f_mul rnd
               (f_mul rnd (f_sub rnd attitude (ffLastAttitude_f d index))
                          (rnd (real_of_int (FeedForward cameraStab index))))
               correction);
          d1 = d\<lparr>ffLastAttitude_f := (ffLastAttitude_f d)(index := attitude)\<rparr>;
          attitude1 = f_add rnd attitude accumulator;
          filter0 = f_div rnd
            (rnd (real_of_int (if f_gt accumulator (Fin 0) then AccelTime cameraStab index
                               else DecelTime cameraStab index)))
            dT_millis;
          filter = (if f_lt filter0 (Fin 1) then Fin 1 else filter0);
          accumulator2 = f_sub rnd accumulator (f_div rnd accumulator filter);
          d2 = d1\<lparr>ffFilterAccumulator_f := (ffFilterAccumulator_f d1)(index := accumulator2)\<rparr>;
          attitude2 = f_add rnd attitude1 accumulator2;
          attitude3 = accelLimit_f rnd (maxDelta_f rnd cameraStab dT_millis)
                        (ffLastAttitudeFiltered_f d2 index) attitude2
      in (attitude3,
          d2\<lparr>ffLastAttitudeFiltered_f := (ffLastAttitudeFiltered_f d2)(index := attitude3)\<rparr>))"

definition applyFF_f ::
  "build_config \<Rightarrow> rounding \<Rightarrow> CameraStabSettingsData \<Rightarrow> (axis \<Rightarrow> cfloat) \<Rightarrow> cfloat \<Rightarrow> axis \<Rightarrow>
   cfloat \<Rightarrow> CameraStab_data_f \<Rightarrow> cfloat \<times> CameraStab_data_f" where
  "applyFF_f b rnd cameraStab att dT_millis i attitude d =
     (if USE_GIMBAL_FF b \<and> FeedForward cameraStab i \<noteq> 0
      then applyFeedForward_f rnd i dT_millis attitude cameraStab att d
      else (attitude, d))"

subsection \<open>Output (line 226) and output channels (lines 229-275)\<close>

definition axisOutput_f :: "rounding \<Rightarrow> CameraStabSettingsData \<Rightarrow> axis \<Rightarrow> cfloat \<Rightarrow> cfloat \<Rightarrow> cfloat" where
  "axisOutput_f rnd cameraStab i attitude trim =
     bound_f (f_div rnd (f_add rnd attitude trim) (rnd (OutputRange cameraStab i))) (Fin 1)"

definition servo1Mix_f :: "rounding \<Rightarrow> CameraStabSettingsData \<Rightarrow> cfloat \<Rightarrow> cfloat \<Rightarrow> cfloat" where
  "servo1Mix_f rnd cameraStab elevon_pitch elevon_r =
     (if Servo1PitchReverse cameraStab
      then f_div rnd (f_add rnd (f_sub rnd (Fin 1) elevon_pitch) elevon_r) (Fin 2)
      else f_div rnd (f_add rnd elevon_pitch elevon_r) (Fin 2))"

definition servo2Mix_f :: "rounding \<Rightarrow> CameraStabSettingsData \<Rightarrow> cfloat \<Rightarrow> cfloat \<Rightarrow> cfloat" where
  "servo2Mix_f rnd cameraStab elevon_pitch elevon_r =
     (if Servo2PitchReverse cameraStab
      then f_div rnd (f_sub rnd (f_sub rnd (Fin 1) elevon_pitch) elevon_r) (Fin 2)
      else f_div rnd (f_sub rnd elevon_pitch elevon_r) (Fin 2))"

fun setOutputChannels_f ::
  "rounding \<Rightarrow> CameraStabSettingsData \<Rightarrow> axis \<Rightarrow> cfloat \<Rightarrow> cfloat \<times> sink_f \<Rightarrow> cfloat \<times> sink_f" where
  "setOutputChannels_f rnd cameraStab Roll outp (er, out) =
     (if GimbalType cameraStab = RollPitchMixed
      then (outp, out)
      else (er, out @ [(RollOrServo1, outp)]))"
| "setOutputChannels_f rnd cameraStab Pitch outp (er, out) =
     (if GimbalType cameraStab = RollPitchMixed
      then (er, out @ [(RollOrServo1, servo1Mix_f rnd cameraStab outp er),
                       (PitchOrServo2, servo2Mix_f rnd cameraStab outp er)])
      else (er, out @ [(PitchOrServo2, outp)]))"
| "setOutputChannels_f rnd cameraStab Yaw outp (er, out) =
     (er, out @ [(YawField, outp)])"

subsection \<open>One axis, and the callback\<close>

text \<open>
  \<open>axisStages_f\<close> is the body of the loop up to the feed forward, \<open>processAxis_f\<close> the whole
  body, and \<open>attitudeUpdated_f\<close> the callback: the new private data and the calls made to
  the setters, in order.
\<close>

definition axisStages_f ::
  "build_config \<Rightarrow> rounding \<Rightarrow> tick_inputs_f \<Rightarrow> cfloat \<Rightarrow> axis \<Rightarrow> CameraStab_data_f \<Rightarrow>
   cfloat \<times> CameraStab_data_f" where
  "axisStages_f b rnd env dT_millis i d =
     (let cameraStab = cameraStabSettings_f env;
          d0 = processInput_f rnd cameraStab (accessoryDesired_f env) dT_millis i d;
          attitude = attitudeState_f env i;
          (attitude1, d1) = applyLPF_f b rnd cameraStab dT_millis i attitude d0
      in applyFF_f b rnd cameraStab (attitudeState_f env) dT_millis i attitude1 d1)"

definition processAxis_f ::
  "build_config \<Rightarrow> rounding \<Rightarrow> tick_inputs_f \<Rightarrow> cfloat \<Rightarrow> axis \<Rightarrow> loop_state_f \<Rightarrow> loop_state_f" where
  "processAxis_f b rnd env dT_millis i s =
     (let cameraStab = cameraStabSettings_f env;
          (attitude2, d2) = axisStages_f b rnd env dT_millis i (csd_f s);
          outp = axisOutput_f rnd cameraStab i attitude2 (inputs_f d2 i);
          (er, out) = setOutputChannels_f rnd cameraStab i outp (elevon_roll_f s, desired_f s)
      in \<lparr>csd_f = d2, elevon_roll_f = er, desired_f = out\<rparr>)"

definition attitudeUpdated_f ::
  "build_config \<Rightarrow> rounding \<Rightarrow> tick_inputs_f \<Rightarrow> CameraStab_data_f \<Rightarrow> CameraStab_data_f \<times> sink_f" where
  "attitudeUpdated_f b rnd env d =
     (if \<not> evObjIsAttitudeState_f env then (d, [])
      else
        (let thisSysTime = taskTickCount_f env;
             dT_millis = dT_millis_f rnd (portTICK_RATE_MS b) (lastSysTime_f d) thisSysTime;
             d' = d\<lparr>lastSysTime_f := thisSysTime\<rparr>;
             s = foldl (\<lambda>s i. processAxis_f b rnd env dT_millis i s)
                   \<lparr>csd_f = d', elevon_roll_f = Fin 0, desired_f = []\<rparr> [Roll, Pitch, Yaw]
         in (csd_f s, desired_f s)))"

subsection \<open>Notions used in the statements\<close>

text \<open>
  A rounding function that keeps an interval; a value that is NaN or in an interval; the
  setter of an axis in the geometries that do not mix; the axis whose output range the
  feed-forward geometry correction divides by.
\<close>

definition rounds_within :: "rounding \<Rightarrow> real \<Rightarrow> real \<Rightarrow> bool" where
  "rounds_within rnd lo hi \<longleftrightarrow>
     (\<forall>x. lo \<le> x \<and> x \<le> hi \<longrightarrow> (\<exists>y. rnd x = Fin y \<and> lo \<le> y \<and> y \<le> hi))"

fun nan_or_within :: "real \<Rightarrow> real \<Rightarrow> cfloat \<Rightarrow> bool" where
  "nan_or_within lo hi (Fin x) = (lo \<le> x \<and> x \<le> hi)"
| "nan_or_within lo hi NaN = True"
| "nan_or_within lo hi PInf = False"
| "nan_or_within lo hi NInf = False"


fun ff_orthogonal :: "gimbal_type \<Rightarrow> axis \<Rightarrow> axis option" where
  "ff_orthogonal YawRollPitch Roll = Some Pitch"
| "ff_orthogonal YawPitchRoll Pitch = Some Roll"
| "ff_orthogonal g i = None"



subsection \<open>Sample configurations\<close>

text \<open>
  The samples of the first embedding over \<open>cfloat\<close>, with accessory values 1/2 and 1/128.
  \<open>ex_env_lpf\<close> has the attitude 3560991/65536 on every axis, \<open>ex_ff_slow\<close> enables feed
  forward with \<open>MaxAccel = 3\<close>, \<open>ex_zero_range a\<close> has a zero output range on axis \<open>a\<close>,
  \<open>ex_yrp\<close> is the YawRollPitch geometry, \<open>ex_yrp_zero\<close> the same with every output range
  zero, and \<open>ex_yrp_zero_ff\<close> the latter with feed forward.
\<close>

definition ex_csd_f :: CameraStab_data_f where
  "ex_csd_f = \<lparr>lastSysTime_f = 100, inputs_f = (\<lambda>_. Fin 0), attitudeFiltered_f = (\<lambda>_. Fin 0),
     ffLastAttitude_f = (\<lambda>_. Fin 0), ffLastAttitudeFiltered_f = (\<lambda>_. Fin 0),
     ffFilterAccumulator_f = (\<lambda>_. Fin 0)\<rparr>"

definition ex_env_f :: "CameraStabSettingsData \<Rightarrow> tick_inputs_f" where
  "ex_env_f cs =
     \<lparr>evObjIsAttitudeState_f = True, cameraStabSettings_f = cs, taskTickCount_f = 110,
      accessoryDesired_f = (\<lambda>n. if n = 0 then Some (Fin (1 / 2)) else if n = 1 then Some (Fin (1 / 128))
                              else None),
      attitudeState_f = (\<lambda>i. case i of Roll \<Rightarrow> Fin 45 | Pitch \<Rightarrow> Fin (- 30) | Yaw \<Rightarrow> Fin 0)\<rparr>"

definition ex_env_lpf :: tick_inputs_f where
  "ex_env_lpf = (ex_env_f ex_settings)\<lparr>attitudeState_f := (\<lambda>_. Fin (3560991 / 65536))\<rparr>"

definition ex_ff_slow :: CameraStabSettingsData where
  "ex_ff_slow = ex_ff\<lparr>MaxAccel := 3\<rparr>"

definition ex_zero_range :: "axis \<Rightarrow> CameraStabSettingsData" where
  "ex_zero_range a = ex_settings\<lparr>OutputRange := (\<lambda>i. if i = a then 0 else 30)\<rparr>"

definition ex_yrp :: CameraStabSettingsData where
  "ex_yrp = ex_settings\<lparr>GimbalType := YawRollPitch\<rparr>"

definition ex_yrp_zero :: CameraStabSettingsData where
  "ex_yrp_zero = ex_settings\<lparr>OutputRange := (\<lambda>_. 0), GimbalType := YawRollPitch\<rparr>"

definition ex_yrp_zero_ff :: CameraStabSettingsData where
  "ex_yrp_zero_ff = ex_yrp_zero\<lparr>FeedForward := (\<lambda>_. 2)\<rparr>"

subsection \<open>From the first embedding to the second\<close>

text \<open>The private data, the inputs, the calls and the loop variables over finite values.\<close>

definition csd_embed :: "CameraStab_data \<Rightarrow> CameraStab_data_f" where
  "csd_embed d =
     \<lparr>lastSysTime_f = lastSysTime d, inputs_f = (\<lambda>i. Fin (inputs d i)),
      attitudeFiltered_f = (\<lambda>i. Fin (attitudeFiltered d i)),
      ffLastAttitude_f = (\<lambda>i. Fin (ffLastAttitude d i)),
      ffLastAttitudeFiltered_f = (\<lambda>i. Fin (ffLastAttitudeFiltered d i)),
      ffFilterAccumulator_f = (\<lambda>i. Fin (ffFilterAccumulator d i))\<rparr>"

definition env_embed :: "tick_inputs \<Rightarrow> tick_inputs_f" where
  "env_embed env =
     \<lparr>evObjIsAttitudeState_f = evObjIsAttitudeState env,
      cameraStabSettings_f = cameraStabSettings env, taskTickCount_f = taskTickCount env,
      accessoryDesired_f = (\<lambda>n. map_option Fin (accessoryDesired env n)),
      attitudeState_f = (\<lambda>i. Fin (attitudeState env i))\<rparr>"

definition sink_embed :: "sink \<Rightarrow> sink_f" where
  "sink_embed out = map (\<lambda>(f, v). (f, Fin v)) out"

definition loop_embed :: "loop_state \<Rightarrow> loop_state_f" where
  "loop_embed s =
     \<lparr>csd_f = csd_embed (csd s), elevon_roll_f = Fin (elevon_roll s),
      desired_f = sink_embed (desired s)\<rparr>"

section \<open>Properties\<close>

subsection \<open>Auxiliary facts\<close>

lemma bound_range: "0 \<le> L \<Longrightarrow> - L \<le> bound v L \<and> bound v L \<le> L"
  by (simp add: bound_def)

lemma bound_abs: "\<bar>bound v L\<bar> \<le> \<bar>L\<bar>"
  by (auto simp add: bound_def)


lemma fdiv_Some_iff: "fdiv a b = Some q \<longleftrightarrow> b \<noteq> 0 \<and> q = a / b"
  by (auto simp add: fdiv_def)

lemma fdiv_None_iff: "fdiv a b = None \<longleftrightarrow> b = 0"
  by (simp add: fdiv_def)

lemmas ex_defs = ex_settings_def ex_mixed_def ex_lock_def ex_ff_def ex_build_def ex_csd_def
  ex_env_def

lemmas tick_eval = attitudeUpdated_def processAxis_def processInput_def applyLPF_def
  lpfValue_def applyFF_def applyFeedForward_def gimbalTypeCorrection_def fdiv_def bound_def
  dT_millis_of_def servo1Mix_def servo2Mix_def Let_def

text \<open>Each stage of an axis touches only its own part of the private data.\<close>

lemma processInput_frame:
  "lastSysTime (processInput cs acc dT i d) = lastSysTime d"
  "attitudeFiltered (processInput cs acc dT i d) = attitudeFiltered d"
  "ffLastAttitude (processInput cs acc dT i d) = ffLastAttitude d"
  "ffLastAttitudeFiltered (processInput cs acc dT i d) = ffLastAttitudeFiltered d"
  "ffFilterAccumulator (processInput cs acc dT i d) = ffFilterAccumulator d"
  by (simp_all add: processInput_def Let_def split: input_sel.split option.split stab_mode.split)

lemma processInput_other:
  "j \<noteq> i \<Longrightarrow> inputs (processInput cs acc dT i d) j = inputs d j"
  by (simp add: processInput_def Let_def split: input_sel.split option.split stab_mode.split)

lemma processInput_at_cong:
  "inputs d i = inputs d0 i \<Longrightarrow>
   inputs (processInput cs acc dT i d) i = inputs (processInput cs acc dT i d0) i"
  by (simp add: processInput_def Let_def split: input_sel.split option.split stab_mode.split)

lemma applyLPF_frame:
  assumes "applyLPF b cs dT i a d = Some (a', d')"
  shows "lastSysTime d' = lastSysTime d" "inputs d' = inputs d"
    "ffLastAttitude d' = ffLastAttitude d"
    "ffLastAttitudeFiltered d' = ffLastAttitudeFiltered d"
    "ffFilterAccumulator d' = ffFilterAccumulator d"
    "j \<noteq> i \<Longrightarrow> attitudeFiltered d' j = attitudeFiltered d j"
  using assms by (auto simp add: applyLPF_def split: if_splits option.splits)

lemma applyFeedForward_frame:
  assumes "applyFeedForward i dT a cs att d = Some (a', d')"
  shows "lastSysTime d' = lastSysTime d" "inputs d' = inputs d"
    "attitudeFiltered d' = attitudeFiltered d"
    "j \<noteq> i \<Longrightarrow> ffLastAttitude d' j = ffLastAttitude d j"
    "j \<noteq> i \<Longrightarrow> ffLastAttitudeFiltered d' j = ffLastAttitudeFiltered d j"
    "j \<noteq> i \<Longrightarrow> ffFilterAccumulator d' j = ffFilterAccumulator d j"
  using assms by (auto simp add: applyFeedForward_def Let_def split: option.splits)

lemma applyFF_frame:
  assumes "applyFF b cs att dT i a d = Some (a', d')"
  shows "lastSysTime d' = lastSysTime d" "inputs d' = inputs d"
    "attitudeFiltered d' = attitudeFiltered d"
    "j \<noteq> i \<Longrightarrow> ffLastAttitude d' j = ffLastAttitude d j"
    "j \<noteq> i \<Longrightarrow> ffLastAttitudeFiltered d' j = ffLastAttitudeFiltered d j"
    "j \<noteq> i \<Longrightarrow> ffFilterAccumulator d' j = ffFilterAccumulator d j"
  using assms applyFeedForward_frame[of i dT a cs att d a' d']
  by (auto simp add: applyFF_def split: if_splits)

text \<open>The stages behind a completed axis, and the axes behind a completed callback.\<close>

lemma processAxis_SomeE:
  assumes "processAxis b env dT i s = Some s'"
  obtains a1 d1 a2 d2 q where
    "applyLPF b (cameraStabSettings env) dT i (attitudeState env i)
       (processInput (cameraStabSettings env) (accessoryDesired env) dT i (csd s)) = Some (a1, d1)"
    "applyFF b (cameraStabSettings env) (attitudeState env) dT i a1 d1 = Some (a2, d2)"
    "fdiv (a2 + inputs d2 i) (OutputRange (cameraStabSettings env) i) = Some q"
    "csd s' = d2"
    "(elevon_roll s', desired s') =
       setOutputChannels (cameraStabSettings env) i (bound q 1) (elevon_roll s, desired s)"
  using assms
  by (auto simp add: processAxis_def Let_def split: option.splits prod.splits)

lemma attitudeUpdated_SomeE:
  assumes "attitudeUpdated b env d = Some (d', out)" "evObjIsAttitudeState env"
  obtains s1 s2 s3 where
    "processAxis b env (dT_millis_of (portTICK_RATE_MS b) (lastSysTime d) (taskTickCount env)) Roll
       \<lparr>csd = d\<lparr>lastSysTime := taskTickCount env\<rparr>, elevon_roll = 0, desired = []\<rparr> = Some s1"
    "processAxis b env (dT_millis_of (portTICK_RATE_MS b) (lastSysTime d) (taskTickCount env))
       Pitch s1 = Some s2"
    "processAxis b env (dT_millis_of (portTICK_RATE_MS b) (lastSysTime d) (taskTickCount env))
       Yaw s2 = Some s3"
    "d' = csd s3" "out = desired s3"
  using assms
  by (auto simp add: attitudeUpdated_def Let_def split: option.splits)

lemma processAxis_inputs:
  assumes "processAxis b env dT j s = Some s'"
  shows "inputs (csd s') =
         inputs (processInput (cameraStabSettings env) (accessoryDesired env) dT j (csd s))"
proof -
  from assms obtain a1 d1 a2 d2 where
    l: "applyLPF b (cameraStabSettings env) dT j (attitudeState env j)
       (processInput (cameraStabSettings env) (accessoryDesired env) dT j (csd s)) = Some (a1, d1)"
    and f: "applyFF b (cameraStabSettings env) (attitudeState env) dT j a1 d1 = Some (a2, d2)"
    and c: "csd s' = d2"
    by (rule processAxis_SomeE)
  show ?thesis
    by (simp only: c applyFF_frame(2)[OF f] applyLPF_frame(2)[OF l])
qed

lemma attitudeUpdated_inputs:
  assumes "attitudeUpdated b env d = Some (d', out)" "evObjIsAttitudeState env"
  shows "inputs d' i =
         inputs (processInput (cameraStabSettings env) (accessoryDesired env)
                   (dT_millis_of (portTICK_RATE_MS b) (lastSysTime d) (taskTickCount env)) i d) i"
proof -
  let ?dT = "dT_millis_of (portTICK_RATE_MS b) (lastSysTime d) (taskTickCount env)"
  let ?pi = "processInput (cameraStabSettings env) (accessoryDesired env) ?dT"
  from assms obtain s1 s2 s3 where
    r: "processAxis b env ?dT Roll
       \<lparr>csd = d\<lparr>lastSysTime := taskTickCount env\<rparr>, elevon_roll = 0, desired = []\<rparr> = Some s1"
    and p: "processAxis b env ?dT Pitch s1 = Some s2"
    and y: "processAxis b env ?dT Yaw s2 = Some s3"
    and d': "d' = csd s3"
    by (rule attitudeUpdated_SomeE)
  have i1: "inputs (csd s1) = inputs (?pi Roll (d\<lparr>lastSysTime := taskTickCount env\<rparr>))"
    using processAxis_inputs[OF r] by simp
  have i2: "inputs (csd s2) = inputs (?pi Pitch (csd s1))"
    using processAxis_inputs[OF p] .
  have i3: "inputs d' = inputs (?pi Yaw (csd s2))"
    using processAxis_inputs[OF y] d' by simp
  show ?thesis
  proof (cases i)
    case Roll
    have "inputs d' Roll = inputs (csd s1) Roll"
      by (simp add: i3 i2 processInput_other)
    also have "\<dots> = inputs (?pi Roll d) Roll"
      unfolding i1 by (rule processInput_at_cong) simp
    finally show ?thesis using Roll by simp
  next
    case Pitch
    have "inputs (csd s1) Pitch = inputs d Pitch"
      by (simp add: i1 processInput_other)
    then have "inputs (csd s2) Pitch = inputs (?pi Pitch d) Pitch"
      unfolding i2 by (rule processInput_at_cong)
    moreover have "inputs d' Pitch = inputs (csd s2) Pitch"
      by (simp add: i3 processInput_other)
    ultimately show ?thesis using Pitch by simp
  next
    case Yaw
    have "inputs (csd s2) Yaw = inputs d Yaw"
      by (simp add: i1 i2 processInput_other)
    then have "inputs d' Yaw = inputs (?pi Yaw d) Yaw"
      unfolding i3 by (rule processInput_at_cong)
    then show ?thesis using Yaw by simp
  qed
qed



lemma channels_unmixed:
  "GimbalType cs \<noteq> RollPitchMixed \<Longrightarrow>
   snd (setOutputChannels cs Yaw y (setOutputChannels cs Pitch p
          (setOutputChannels cs Roll r (0, [])))) =
     [(RollOrServo1, r), (PitchOrServo2, p), (YawField, y)]"
  by simp


lemma processAxis_length:
  assumes "processAxis b env dT i s = Some s'"
  shows "length (desired s') = length (desired s) +
           (if GimbalType (cameraStabSettings env) = RollPitchMixed
            then (case i of Roll \<Rightarrow> 0 | Pitch \<Rightarrow> 2 | Yaw \<Rightarrow> 1) else 1)"
proof -
  from assms obtain q where
    "(elevon_roll s', desired s') =
       setOutputChannels (cameraStabSettings env) i (bound q 1) (elevon_roll s, desired s)"
    by (rule processAxis_SomeE)
  then show ?thesis by (cases i) (auto split: if_splits)
qed

lemma attitudeUpdated_length:
  assumes "attitudeUpdated b env d = Some (d', out)" "evObjIsAttitudeState env"
  shows "length out = 3"
proof -
  let ?dT = "dT_millis_of (portTICK_RATE_MS b) (lastSysTime d) (taskTickCount env)"
  from assms obtain s1 s2 s3 where
    r: "processAxis b env ?dT Roll
       \<lparr>csd = d\<lparr>lastSysTime := taskTickCount env\<rparr>, elevon_roll = 0, desired = []\<rparr> = Some s1"
    and p: "processAxis b env ?dT Pitch s1 = Some s2"
    and y: "processAxis b env ?dT Yaw s2 = Some s3"
    and out: "out = desired s3"
    by (rule attitudeUpdated_SomeE)
  show ?thesis
    using processAxis_length[OF r] processAxis_length[OF p] processAxis_length[OF y]
    by (simp add: out split: if_splits)
qed

text \<open>When the stages have a result: only a zero output range can take it away.\<close>

lemma gimbalTypeCorrection_defined_iff:
  "gimbalTypeCorrection cs att i \<noteq> None \<longleftrightarrow>
     \<not> (GimbalType cs = YawRollPitch \<and> i = Roll \<and> OutputRange cs Pitch = 0) \<and>
     \<not> (GimbalType cs = YawPitchRoll \<and> i = Pitch \<and> OutputRange cs Roll = 0)"
  by (simp add: gimbalTypeCorrection_def fdiv_def split: gimbal_type.split)

lemma applyFeedForward_defined_iff:
  assumes "dT \<noteq> 0"
  shows "applyFeedForward i dT a cs att d \<noteq> None \<longleftrightarrow> gimbalTypeCorrection cs att i \<noteq> None"
  using assms
  by (auto simp add: applyFeedForward_def fdiv_def Let_def split: option.splits)

lemma applyLPF_defined:
  "0 < dT \<Longrightarrow> 0 \<le> ResponseTime cs i \<Longrightarrow> applyLPF b cs dT i a d \<noteq> None"
  by (simp add: applyLPF_def lpfValue_def fdiv_def split: option.split)

lemma applyFF_defined:
  assumes "0 < dT" "\<forall>j. OutputRange cs j \<noteq> 0"
  shows "applyFF b cs att dT i a d \<noteq> None"
proof -
  have "gimbalTypeCorrection cs att i \<noteq> None"
    using assms(2) by (subst gimbalTypeCorrection_defined_iff) simp
  then have "applyFeedForward i dT a cs att d \<noteq> None"
    using assms(1) by (subst applyFeedForward_defined_iff) simp_all
  then show ?thesis by (simp add: applyFF_def)
qed

lemma processAxis_defined:
  assumes "0 < dT" "\<forall>j. 0 \<le> ResponseTime (cameraStabSettings env) j"
    "\<forall>j. OutputRange (cameraStabSettings env) j \<noteq> 0"
  shows "processAxis b env dT i s \<noteq> None"
proof -
  let ?cs = "cameraStabSettings env"
  obtain a1 d1 where l: "applyLPF b ?cs dT i (attitudeState env i)
       (processInput ?cs (accessoryDesired env) dT i (csd s)) = Some (a1, d1)"
    using applyLPF_defined[of dT ?cs i b] assms(1,2) by fastforce
  obtain a2 d2 where f: "applyFF b ?cs (attitudeState env) dT i a1 d1 = Some (a2, d2)"
    using applyFF_defined[OF assms(1,3), of b "attitudeState env" i a1 d1] by fastforce
  show ?thesis
    using assms(3) by (simp add: processAxis_def Let_def l f fdiv_def split: prod.split)
qed

lemma attitudeUpdated_defined:
  assumes "0 < dT_millis_of (portTICK_RATE_MS b) (lastSysTime d) (taskTickCount env)"
    "\<forall>j. 0 \<le> ResponseTime (cameraStabSettings env) j"
    "\<forall>j. OutputRange (cameraStabSettings env) j \<noteq> 0"
  shows "attitudeUpdated b env d \<noteq> None"
proof -
  let ?dT = "dT_millis_of (portTICK_RATE_MS b) (lastSysTime d) (taskTickCount env)"
  note def = processAxis_defined[OF assms, of b]
  obtain s1 where r: "processAxis b env ?dT Roll
       \<lparr>csd = d\<lparr>lastSysTime := taskTickCount env\<rparr>, elevon_roll = 0, desired = []\<rparr> = Some s1"
    using def[of Roll] by blast
  obtain s2 where p: "processAxis b env ?dT Pitch s1 = Some s2"
    using def[of Pitch s1] by blast
  obtain s3 where y: "processAxis b env ?dT Yaw s2 = Some s3"
    using def[of Yaw s2] by blast
  show ?thesis by (simp add: attitudeUpdated_def Let_def r p y)
qed

lemma dT_advancing:
  assumes "lastTime < thisSysTime" "unat (thisSysTime - lastTime) * unat r < 2 ^ 32"
  shows "dT_millis_of r lastTime thisSysTime = real ((unat thisSysTime - unat lastTime) * unat r)"
proof -
  have le: "lastTime \<le> thisSysTime" using assms(1) by simp
  have "unat ((thisSysTime - lastTime) * r) = unat (thisSysTime - lastTime) * unat r"
    using assms(2) by (simp add: unat_word_ariths)
  moreover have "unat (thisSysTime - lastTime) = unat thisSysTime - unat lastTime"
    using le by (simp add: unat_sub)
  ultimately show ?thesis using assms(1) by (simp only: dT_millis_of_def if_True)
qed

subsection \<open>Axis-lock integrator\<close>



subsection \<open>Output mixer\<close>



subsection \<open>Elapsed time\<close>

text \<open>
  C8. The elapsed time is positive: when the tick counter is strictly beyond the stored
  reading it is the difference of the two readings, in milliseconds; when the counter has
  not advanced or has gone back it is the nominal sample period of 10 ms. The conversion
  factor \<^verbatim>\<open>portTICK_RATE_MS\<close> is \<open>r\<close>; it must not be zero, and the product of the
  difference and the factor must fit the 32-bit tick type (it always does for 1 ms ticks).
\<close>

theorem dT_millis_positive:
  assumes rate: "r \<noteq> 0"
    and fits: "lastTime < thisSysTime \<Longrightarrow> unat (thisSysTime - lastTime) * unat r < 2 ^ 32"
  shows "0 < dT_millis_of r lastTime thisSysTime \<and>
         dT_millis_of r lastTime thisSysTime =
           (if lastTime < thisSysTime
            then real ((unat thisSysTime - unat lastTime) * unat r)
            else 10)"
proof (cases "lastTime < thisSysTime")
  case True
  have "unat lastTime < unat thisSysTime" using True by (simp add: word_less_nat_alt)
  moreover have "0 < unat r" using rate by (simp add: unat_gt_0)
  ultimately have "0 < (unat thisSysTime - unat lastTime) * unat r" by simp
  then have "0 < real ((unat thisSysTime - unat lastTime) * unat r)"
    by (simp only: of_nat_0_less_iff)
  then show ?thesis
    using True by (simp only: dT_advancing[OF True fits[OF True]] if_True simp_thms)
next
  case False
  then show ?thesis by (simp add: dT_millis_of_def SAMPLE_PERIOD_MS_def)
qed

theorem dT_millis_positive_witness:
  "0 < dT_millis_of 1 100 125 \<and> dT_millis_of 1 100 125 = 25 \<and>
   0 < dT_millis_of 1 100 100 \<and> dT_millis_of 1 100 100 = 10 \<and>
   0 < dT_millis_of 1 100 7 \<and> dT_millis_of 1 100 7 = 10"
  using dT_millis_positive[of 1 100 125] dT_millis_positive[of 1 100 100]
    dT_millis_positive[of 1 100 7]
  by simp

subsection \<open>Attitude low-pass filter\<close>

text \<open>
  C6. The specification lets an axis with a zero response time keep its stored
  \<open>attitudeFiltered\<close>. The guard of the filter tests the settings array instead of the
  axis's element, so with the filter compiled in the stage runs for every axis: with a
  response time of 0, a stored value of 0 and a roll attitude of 45, the callback stores 45.
\<close>

theorem lpf_ignores_zero_response_time:
  "USE_GIMBAL_LPF ex_build \<and> ResponseTime ex_settings Roll = 0 \<and>
   attitudeFiltered ex_csd Roll = 0 \<and>
   map_option (\<lambda>r. attitudeFiltered (fst r) Roll)
     (attitudeUpdated ex_build (ex_env ex_settings) ex_csd) = Some 45"
  by (simp add: tick_eval ex_defs)

subsection \<open>Feed-forward decay\<close>



subsection \<open>Failing accessory fetch\<close>

lemma processInput_fetch_failure:
  assumes "Input cs i = InputAccessory n" "acc n = None"
  shows "processInput (cs\<lparr>Input := (Input cs)(i := InputNone)\<rparr>) acc dT j d =
         processInput cs acc dT j d"
  using assms
  by (cases "j = i")
    (simp_all add: processInput_def Let_def split: input_sel.split option.split stab_mode.split)

lemma applyLPF_Input: "applyLPF b (cs\<lparr>Input := x\<rparr>) dT i a d = applyLPF b cs dT i a d"
  by (simp add: applyLPF_def)

lemma applyFF_Input: "applyFF b (cs\<lparr>Input := x\<rparr>) att dT i a d = applyFF b cs att dT i a d"
  by (simp add: applyFF_def applyFeedForward_def gimbalTypeCorrection_def Let_def
      cong: option.case_cong gimbal_type.case_cong if_cong)

lemma setOutputChannels_Input:
  "setOutputChannels (cs\<lparr>Input := x\<rparr>) i output p = setOutputChannels cs i output p"
  by (cases i; cases p) (simp_all add: servo1Mix_def servo2Mix_def)

lemma processAxis_fetch_failure:
  assumes "Input (cameraStabSettings env) i = InputAccessory n" "accessoryDesired env n = None"
  shows "processAxis b
           (env\<lparr>cameraStabSettings :=
                  (cameraStabSettings env)\<lparr>Input := (Input (cameraStabSettings env))(i := InputNone)\<rparr>\<rparr>)
           dT j s =
         processAxis b env dT j s"
  using processInput_fetch_failure[of "cameraStabSettings env" i n "accessoryDesired env" dT j "csd s",
      OF assms]
  by (simp add: processAxis_def Let_def applyLPF_Input applyFF_Input setOutputChannels_Input
      cong: option.case_cong split: prod.split)

lemma processAxes_fetch_failure:
  assumes "Input (cameraStabSettings env) i = InputAccessory n" "accessoryDesired env n = None"
  shows "processAxes b
           (env\<lparr>cameraStabSettings :=
                  (cameraStabSettings env)\<lparr>Input := (Input (cameraStabSettings env))(i := InputNone)\<rparr>\<rparr>)
           dT js s =
         processAxes b env dT js s"
  by (induction js arbitrary: s)
    (simp_all add: processAxis_fetch_failure[OF assms] cong: option.case_cong)

text \<open>
  C9. When an axis has an input source configured and the fetch of its accessory channel
  fails, the callback behaves exactly as if the axis had no input source: the accumulated
  value of the axis is the one of the previous callback, and the rest of the processing
  runs, making its three calls to the output setters whenever the divisions are defined.
\<close>

theorem accessory_fetch_failure:
  assumes ev: "evObjIsAttitudeState env"
    and src: "Input (cameraStabSettings env) i = InputAccessory n"
    and fetch: "accessoryDesired env n = None"
  shows "attitudeUpdated b env d =
           attitudeUpdated b
             (env\<lparr>cameraStabSettings :=
                (cameraStabSettings env)\<lparr>Input := (Input (cameraStabSettings env))(i := InputNone)\<rparr>\<rparr>) d
         \<and> (\<forall>d' out. attitudeUpdated b env d = Some (d', out) \<longrightarrow> inputs d' i = inputs d i)
         \<and> (0 < dT_millis_of (portTICK_RATE_MS b) (lastSysTime d) (taskTickCount env) \<and>
            (\<forall>j. 0 \<le> ResponseTime (cameraStabSettings env) j) \<and>
            (\<forall>j. OutputRange (cameraStabSettings env) j \<noteq> 0) \<longrightarrow>
              (\<exists>d' out. attitudeUpdated b env d = Some (d', out) \<and> length out = 3))"
proof (intro conjI allI impI)
  show "attitudeUpdated b env d =
           attitudeUpdated b
             (env\<lparr>cameraStabSettings :=
                (cameraStabSettings env)\<lparr>Input := (Input (cameraStabSettings env))(i := InputNone)\<rparr>\<rparr>) d"
    by (simp add: attitudeUpdated_def processAxes_fetch_failure[OF src fetch] del: processAxes.simps)
next
  fix d' out assume t: "attitudeUpdated b env d = Some (d', out)"
  show "inputs d' i = inputs d i"
    using attitudeUpdated_inputs[OF t ev, of i] src fetch
    by (simp add: processInput_def)
next
  assume "0 < dT_millis_of (portTICK_RATE_MS b) (lastSysTime d) (taskTickCount env) \<and>
            (\<forall>j. 0 \<le> ResponseTime (cameraStabSettings env) j) \<and>
            (\<forall>j. OutputRange (cameraStabSettings env) j \<noteq> 0)"
  then have "attitudeUpdated b env d \<noteq> None"
    using attitudeUpdated_defined by blast
  then obtain d' out where t: "attitudeUpdated b env d = Some (d', out)" by auto
  have "length out = 3" by (rule attitudeUpdated_length[OF t ev])
  with t show "\<exists>d' out. attitudeUpdated b env d = Some (d', out) \<and> length out = 3" by blast
qed

theorem accessory_fetch_failure_witness:
  "Input (cameraStabSettings (ex_env ex_lock)) Yaw = InputAccessory 2 \<and>
   accessoryDesired (ex_env ex_lock) 2 = None \<and>
   map_option (\<lambda>r. (inputs (fst r) Yaw, snd r))
     (attitudeUpdated ex_build (ex_env ex_lock) ex_csd) =
     Some (inputs ex_csd Yaw, [(RollOrServo1, 1), (PitchOrServo2, - 1), (YawField, 0)]) \<and>
   attitudeUpdated ex_build (ex_env ex_lock) ex_csd =
     attitudeUpdated ex_build
       (ex_env (ex_lock\<lparr>Input := (Input ex_lock)(Yaw := InputNone)\<rparr>)) ex_csd"
proof -
  have ev: "evObjIsAttitudeState (ex_env ex_lock)" by (simp add: ex_defs)
  have s: "Input (cameraStabSettings (ex_env ex_lock)) Yaw = InputAccessory 2"
    by (simp add: ex_defs)
  have f: "accessoryDesired (ex_env ex_lock) 2 = None" by (simp add: ex_defs)
  have e: "map_option (\<lambda>r. (inputs (fst r) Yaw, snd r))
     (attitudeUpdated ex_build (ex_env ex_lock) ex_csd) =
     Some (inputs ex_csd Yaw, [(RollOrServo1, 1), (PitchOrServo2, - 1), (YawField, 0)])"
    by (simp add: tick_eval ex_defs)
  have c: "(ex_env ex_lock)\<lparr>cameraStabSettings :=
             (cameraStabSettings (ex_env ex_lock))
               \<lparr>Input := (Input (cameraStabSettings (ex_env ex_lock)))(Yaw := InputNone)\<rparr>\<rparr> =
           ex_env (ex_lock\<lparr>Input := (Input ex_lock)(Yaw := InputNone)\<rparr>)"
    by (simp add: ex_env_def)
  show ?thesis
    using accessory_fetch_failure[OF ev s f, of ex_build ex_csd] e s f
    by (simp only: c simp_thms)
qed

section \<open>Properties of the binary32 embedding\<close>

subsection \<open>Rounding\<close>

lemma round_even_err: "\<bar>of_int (round_even y) - y\<bar> \<le> 1 / 2"
  unfolding round_even_def Let_def by (auto simp: abs_le_iff) (linarith+)?

lemma round_even_int [simp]: "round_even (of_int k) = k"
  by (simp add: round_even_def)

lemma round_even_le: "y \<le> of_int k \<Longrightarrow> round_even y \<le> k"
  unfolding round_even_def Let_def
  by (auto simp: floor_le_iff le_floor_iff) (linarith+)?

lemma round_even_ge: "of_int k \<le> y \<Longrightarrow> k \<le> round_even y"
proof -
  assume a: "of_int k \<le> y"
  then have "k \<le> \<lfloor>y\<rfloor>" by (simp add: le_floor_iff)
  then show ?thesis unfolding round_even_def Let_def by auto
qed

lemma f32_expo_below_range: "- 126 \<le> f32_expo_below n x \<and> f32_expo_below n x \<le> int n - 126"
  by (induction n) auto

lemma f32_expo_below_lower:
  "2 powi (- 126) \<le> x \<Longrightarrow> 2 powi (f32_expo_below n x) \<le> x"
  by (induction n) auto

lemma f32_expo_below_upper:
  "x < 2 powi (int n - 125) \<Longrightarrow> x < 2 powi (f32_expo_below n x + 1)"
proof (induction n)
  case 0
  then show ?case by simp
next
  case (Suc n)
  show ?case
  proof (cases "2 powi (int (Suc n) - 126) \<le> x")
    case True
    then show ?thesis using Suc.prems by (simp add: algebra_simps)
  next
    case False
    then have "x < 2 powi (int n - 125)" by (simp add: algebra_simps)
    from Suc.IH[OF this] False show ?thesis by simp
  qed
qed

lemma f32_expo_below_unique:
  assumes "2 powi e \<le> x" "x < 2 powi (e + 1)" "- 126 \<le> e" "e \<le> int n - 126"
  shows "f32_expo_below n x = e"
  using assms
proof (induction n)
  case 0
  then show ?case by simp
next
  case (Suc n)
  show ?case
  proof (cases "e = int (Suc n) - 126")
    case True
    then show ?thesis using Suc.prems by simp
  next
    case False
    then have le: "e \<le> int n - 126" using Suc.prems by simp
    then have "e + 1 \<le> int (Suc n) - 126" by simp
    then have "(2::real) powi (e + 1) \<le> 2 powi (int (Suc n) - 126)"
      by (intro power_int_increasing) simp_all
    then have "\<not> 2 powi (int (Suc n) - 126) \<le> x" using Suc.prems(2) by linarith
    then show ?thesis using Suc.IH[OF Suc.prems(1,2,3) le] by simp
  qed
qed

lemma f32_expo_below_small:
  "x < 2 powi (- 125) \<Longrightarrow> f32_expo_below n x = - 126"
proof (induction n)
  case 0
  then show ?case by simp
next
  case (Suc n)
  have "(2::real) powi (- 125) \<le> 2 powi (int (Suc n) - 126)"
    by (intro power_int_increasing) simp_all
  then have "\<not> 2 powi (int (Suc n) - 126) \<le> x" using Suc.prems by linarith
  then show ?case using Suc by simp
qed

lemma f32_expo_range: "- 126 \<le> f32_expo x \<and> f32_expo x \<le> 127"
  using f32_expo_below_range[of 253 "\<bar>x\<bar>"] by (simp add: f32_expo_def)

lemma f32_expo_lower: "2 powi (- 126) \<le> \<bar>x\<bar> \<Longrightarrow> 2 powi (f32_expo x) \<le> \<bar>x\<bar>"
  unfolding f32_expo_def by (rule f32_expo_below_lower)

lemma f32_expo_small: "\<bar>x\<bar> < 2 powi (- 126) \<Longrightarrow> f32_expo x = - 126"
proof -
  assume a: "\<bar>x\<bar> < 2 powi (- 126)"
  have "(2::real) powi (- 126) \<le> 2 powi (- 125)"
    by (intro power_int_increasing) simp_all
  then have "\<bar>x\<bar> < 2 powi (- 125)" using a by linarith
  then show ?thesis unfolding f32_expo_def by (rule f32_expo_below_small)
qed

lemma f32_expo_unique:
  assumes "2 powi e \<le> \<bar>x\<bar>" "\<bar>x\<bar> < 2 powi (e + 1)" "- 126 \<le> e" "e \<le> 127"
  shows "f32_expo x = e"
  unfolding f32_expo_def using assms by (intro f32_expo_below_unique) simp_all

lemma f32_expo_le:
  assumes "\<bar>x\<bar> < 2 powi (k + 1)" "- 126 \<le> k"
  shows "f32_expo x \<le> k"
proof (rule ccontr)
  assume "\<not> f32_expo x \<le> k"
  then have gt: "k + 1 \<le> f32_expo x" by simp
  then have "- 126 < f32_expo x" using assms(2) by simp
  have "2 powi (- 126) \<le> \<bar>x\<bar>"
  proof (rule ccontr)
    assume "\<not> 2 powi (- 126) \<le> \<bar>x\<bar>"
    then have "f32_expo x = - 126" by (intro f32_expo_small) simp
    with \<open>- 126 < f32_expo x\<close> show False by simp
  qed
  then have "2 powi (f32_expo x) \<le> \<bar>x\<bar>" by (rule f32_expo_lower)
  moreover have "(2::real) powi (k + 1) \<le> 2 powi (f32_expo x)"
    using gt by (intro power_int_increasing) simp_all
  ultimately show False using assms(1) by linarith
qed

lemma f32_expo_upper:
  assumes "f32_expo x < 127"
  shows "\<bar>x\<bar> < 2 powi (f32_expo x + 1)"
proof (cases "\<bar>x\<bar> < 2 powi 128")
  case True
  then show ?thesis
    using f32_expo_below_upper[of "\<bar>x\<bar>" 253] by (simp add: f32_expo_def)
next
  case False
  have "(2::real) powi 127 \<le> 2 powi 128" by (intro power_int_increasing) simp_all
  then have "2 powi 127 \<le> \<bar>x\<bar>" using False by linarith
  then have "f32_expo x = 127"
    using f32_expo_below.simps(2)[of 252 "\<bar>x\<bar>"] by (simp add: f32_expo_def)
  with assms show ?thesis by simp
qed

text \<open>The rounded value is a multiple of the unit in the last place, half a unit away at most.\<close>

lemma fl32_cases:
  obtains (fin) "fl32 x = Fin (of_int (round_even (x / 2 powi (f32_expo x - 23))) * 2 powi (f32_expo x - 23))"
  | (pinf) "fl32 x = PInf" "0 < x" | (ninf) "fl32 x = NInf" "x \<le> 0"
proof (cases "(2::real) powi 128 \<le> \<bar>of_int (round_even (x / 2 powi (f32_expo x - 23))) * 2 powi (f32_expo x - 23)\<bar>")
  case True
  then show ?thesis
    using pinf ninf unfolding fl32_def Let_def by (cases "0 < x") simp_all
next
  case False
  then show ?thesis using fin unfolding fl32_def Let_def by simp
qed

lemma fl32_not_NaN: "fl32 x \<noteq> NaN"
  by (cases x rule: fl32_cases) simp_all

lemma half_ulp_bound:
  "2 powi (f32_expo x - 23) / 2 \<le> \<bar>x\<bar> / 2 ^ 24 + 1 / 2 ^ 150"
proof (cases "2 powi (- 126) \<le> \<bar>x\<bar>")
  case True
  have "(2::real) powi (f32_expo x - 23) = 2 powi (f32_expo x) / 2 ^ 23"
    by (simp add: power_int_diff)
  then have "(2::real) powi (f32_expo x - 23) / 2 = 2 powi (f32_expo x) / 2 ^ 24" by simp
  also have "\<dots> \<le> \<bar>x\<bar> / 2 ^ 24"
    using f32_expo_lower[OF True] by (simp add: divide_right_mono)
  finally show ?thesis by simp
next
  case False
  then have "f32_expo x = - 126" by (intro f32_expo_small) simp
  then have "(2::real) powi (f32_expo x - 23) / 2 = 1 / 2 ^ 150"
    by (simp add: power_int_minus field_simps)
  then show ?thesis by simp
qed

lemma round_to_ulp_err:
  assumes "0 < u"
  shows "\<bar>of_int (round_even (x / u)) * u - x\<bar> \<le> u / 2"
proof -
  have "\<bar>of_int (round_even (x / u)) - x / u\<bar> \<le> 1 / 2" by (rule round_even_err)
  then have "\<bar>of_int (round_even (x / u)) - x / u\<bar> * u \<le> 1 / 2 * u"
    using assms by (intro mult_right_mono) simp_all
  moreover have "\<bar>of_int (round_even (x / u)) - x / u\<bar> * u =
                 \<bar>of_int (round_even (x / u)) * u - x\<bar>"
  proof -
    have "\<bar>of_int (round_even (x / u)) - x / u\<bar> * u = \<bar>(of_int (round_even (x / u)) - x / u) * u\<bar>"
      using assms by (simp add: abs_mult)
    also have "(of_int (round_even (x / u)) - x / u) * u = of_int (round_even (x / u)) * u - x"
      using assms by (simp add: field_simps)
    finally show ?thesis .
  qed
  ultimately show ?thesis by simp
qed

lemma fl32_err:
  assumes "fl32 x = Fin y"
  shows "\<bar>y - x\<bar> \<le> \<bar>x\<bar> / 2 ^ 24 + 1 / 2 ^ 150"
proof -
  let ?u = "(2::real) powi (f32_expo x - 23)"
  have u: "0 < ?u" by simp
  from assms have "y = of_int (round_even (x / ?u)) * ?u"
    by (cases x rule: fl32_cases) simp_all
  then have "\<bar>y - x\<bar> \<le> ?u / 2" using round_to_ulp_err[OF u, of x] by simp
  also have "\<dots> \<le> \<bar>x\<bar> / 2 ^ 24 + 1 / 2 ^ 150" by (rule half_ulp_bound)
  finally show ?thesis .
qed

lemma fl32_finite:
  assumes "\<bar>x\<bar> \<le> 2 ^ 127"
  shows "\<exists>y. fl32 x = Fin y"
proof -
  let ?u = "(2::real) powi (f32_expo x - 23)"
  let ?r = "of_int (round_even (x / ?u)) * ?u"
  have u: "0 < ?u" by simp
  have "f32_expo x - 23 \<le> 104" using f32_expo_range[of x] by simp
  then have "?u \<le> 2 powi 104" by (intro power_int_increasing) simp_all
  then have u104: "?u \<le> 2 ^ 104" by simp
  have "\<bar>?r - x\<bar> \<le> ?u / 2" by (rule round_to_ulp_err[OF u])
  then have "\<bar>?r\<bar> \<le> \<bar>x\<bar> + ?u / 2" by linarith
  also have "\<dots> \<le> 2 ^ 127 + 2 ^ 104 / 2" using assms u104 by linarith
  also have "\<dots> < 2 ^ 128" by simp
  finally have "\<not> \<bar>?r\<bar> \<ge> 2 powi 128" by simp
  then show ?thesis unfolding fl32_def Let_def by simp
qed

lemma fl32_zero [simp]: "fl32 0 = Fin 0"
  by (simp add: fl32_def round_even_def)

lemma fl32_at:
  assumes "2 powi e \<le> \<bar>x\<bar>" "\<bar>x\<bar> < 2 powi (e + 1)" "- 126 \<le> e" "e \<le> 126"
  shows "fl32 x = Fin (of_int (round_even (x / 2 powi (e - 23))) * 2 powi (e - 23))"
proof -
  have e: "f32_expo x = e" using assms by (intro f32_expo_unique) simp_all
  have "(2::real) powi (e + 1) \<le> 2 powi 127" using assms(4) by (intro power_int_increasing) simp_all
  then have "\<bar>x\<bar> \<le> 2 ^ 127" using assms(2) by simp
  then obtain y where y: "fl32 x = Fin y" using fl32_finite by blast
  then show ?thesis by (cases x rule: fl32_cases) (simp_all add: e)
qed

text \<open>Binary32 numbers are not changed, and rounding is monotone at them.\<close>

lemma fl32_repr:
  assumes x: "x = of_int m * 2 powi j" and m: "\<bar>m\<bar> < 2 ^ 24" and j: "- 149 \<le> j" "j \<le> 104"
  shows "fl32 x = Fin x"
proof -
  let ?e = "f32_expo x"
  let ?u = "(2::real) powi (?e - 23)"
  have "\<bar>x\<bar> = \<bar>of_int m\<bar> * 2 powi j" by (simp add: x abs_mult)
  also have "\<dots> < 2 ^ 24 * 2 powi j"
  proof -
    have "\<bar>real_of_int m\<bar> < 2 ^ 24" using m by (metis of_int_abs of_int_less_numeral_power_cancel_iff)
    then show ?thesis by (intro mult_strict_right_mono) simp_all
  qed
  also have "\<dots> = 2 powi (23 + j + 1)" by (simp add: power_int_add)
  finally have lt: "\<bar>x\<bar> < 2 powi (23 + j + 1)" .
  then have "?e \<le> 23 + j" using j by (intro f32_expo_le) simp_all
  then have k: "0 \<le> j - (?e - 23)" by simp
  have "x / ?u = of_int m * 2 powi (j - (?e - 23))" by (simp add: x power_int_diff)
  also have "\<dots> = of_int (m * 2 ^ nat (j - (?e - 23)))"
    using k by (simp add: power_int_def)
  finally have "round_even (x / ?u) = m * 2 ^ nat (j - (?e - 23))" by (simp only: round_even_int)
  then have "of_int (round_even (x / ?u)) * ?u = of_int m * 2 powi (j - (?e - 23)) * ?u"
    using k by (simp add: power_int_def)
  also have "\<dots> = x" by (simp add: x power_int_diff)
  finally have r: "of_int (round_even (x / ?u)) * ?u = x" .
  have "(2::real) powi (23 + j + 1) \<le> 2 powi 128" using j by (intro power_int_increasing) simp_all
  then have "\<not> \<bar>x\<bar> \<ge> 2 powi 128" using lt by linarith
  then show ?thesis unfolding fl32_def Let_def r by simp
qed

lemma fl32_int: "\<bar>m\<bar> < 2 ^ 24 \<Longrightarrow> fl32 (of_int m) = Fin (of_int m)"
  using fl32_repr[of "of_int m" m 0] by simp

lemma fl32_numeral: "numeral k < (2 ^ 24 :: int) \<Longrightarrow> fl32 (numeral k) = Fin (numeral k)"
  using fl32_int[of "numeral k"] by simp

lemma fl32_neg_numeral: "numeral k < (2 ^ 24 :: int) \<Longrightarrow> fl32 (- numeral k) = Fin (- numeral k)"
  using fl32_int[of "- numeral k"] by simp

lemma fl32_one [simp]: "fl32 1 = Fin 1"
  using fl32_int[of 1] by simp

lemma fl32_minus_one [simp]: "fl32 (- 1) = Fin (- 1)"
  using fl32_int[of "- 1"] by simp

lemma fl32_idem:
  assumes "fl32 x = Fin y"
  shows "fl32 y = Fin y"
proof -
  define e where "e = f32_expo x"
  define u :: real where "u = 2 powi (e - 23)"
  define m where "m = round_even (x / u)"
  have u: "0 < u" by (simp add: u_def)
  have y: "y = of_int m * u" and fin: "\<bar>of_int m * u\<bar> < 2 powi 128"
    using assms unfolding fl32_def Let_def m_def u_def e_def by (simp_all split: if_splits)
  have er: "- 126 \<le> e" "e \<le> 127" using f32_expo_range[of x] by (simp_all add: e_def)
  show ?thesis
  proof (cases "\<bar>m\<bar> < 2 ^ 24")
    case True
    show ?thesis using y True er by (intro fl32_repr[of y m "e - 23"]) (simp_all add: u_def)
  next
    case False
    then have big: "2 ^ 24 \<le> \<bar>m\<bar>" by simp
    then have bigr: "(2::real) ^ 24 \<le> \<bar>of_int m\<bar>"
      by (metis of_int_abs numeral_power_le_of_int_cancel_iff)
    have e126: "e \<le> 126"
    proof (rule ccontr)
      assume "\<not> e \<le> 126"
      then have "e = 127" using er by simp
      then have "u = 2 powi 104" by (simp add: u_def)
      then have "(2::real) ^ 24 * 2 powi 104 \<le> \<bar>of_int m\<bar> * u"
        using bigr by (simp add: mult_right_mono)
      moreover have "(2::real) ^ 24 * 2 powi 104 = 2 powi 128" by simp
      moreover have "\<bar>of_int m * u\<bar> = \<bar>of_int m\<bar> * u" using u by (simp add: abs_mult)
      ultimately show False using fin by linarith
    qed
    then have "\<bar>x\<bar> < 2 powi (e + 1)" using f32_expo_upper[of x] by (simp add: e_def)
    also have "\<dots> = 2 ^ 24 * u" by (simp add: u_def power_int_add power_int_diff)
    finally have "\<bar>x\<bar> / u < 2 ^ 24" using u by (simp add: field_simps)
    then have "\<bar>x / u\<bar> < 2 ^ 24" using u by simp
    then have "x / u \<le> 2 ^ 24" "- (2 ^ 24) \<le> x / u" by linarith+
    then have b: "x / u \<le> of_int (2 ^ 24)" "of_int (- (2 ^ 24)) \<le> x / u" by simp_all
    have "m \<le> 2 ^ 24" unfolding m_def using b(1) by (rule round_even_le)
    moreover have "- (2 ^ 24) \<le> m" unfolding m_def using b(2) by (rule round_even_ge)
    ultimately have "m \<le> 2 ^ 24" "- (2 ^ 24) \<le> m" by simp_all
    with big have "m = 2 ^ 24 \<or> m = - (2 ^ 24)" by linarith
    then have "y = of_int (m div 2) * 2 powi (e - 22)" "\<bar>m div 2\<bar> < 2 ^ 24"
      by (auto simp add: y u_def power_int_diff)
    then show ?thesis using er e126 by (intro fl32_repr[of y "m div 2" "e - 22"]) simp_all
  qed
qed

lemma fl32_nonneg: "0 \<le> x \<Longrightarrow> fl32 x = Fin y \<Longrightarrow> 0 \<le> y"
proof -
  assume x: "0 \<le> x" and y: "fl32 x = Fin y"
  let ?u = "(2::real) powi (f32_expo x - 23)"
  have "of_int 0 \<le> x / ?u" using x by simp
  then have "0 \<le> round_even (x / ?u)" by (rule round_even_ge)
  moreover from y have "y = of_int (round_even (x / ?u)) * ?u"
    by (cases x rule: fl32_cases) simp_all
  ultimately show ?thesis by simp
qed


lemma fl32_abs_le:
  assumes "fl32 x = Fin y"
  shows "\<bar>y\<bar> \<le> \<bar>x\<bar> + \<bar>x\<bar> / 2 ^ 24 + 1 / 2 ^ 150"
  using fl32_err[OF assms] by linarith

lemma fl32_upper:
  assumes xh: "x \<le> h" and xk: "\<bar>x\<bar> < 2 powi (k + 1)" and k: "- 126 \<le> k"
    and h: "h = of_int n * 2 powi (k - 23)" and y: "fl32 x = Fin y"
  shows "y \<le> h"
proof -
  let ?e = "f32_expo x"
  let ?u = "(2::real) powi (?e - 23)"
  have u: "0 < ?u" by simp
  have e: "?e \<le> k" using xk k by (rule f32_expo_le)
  have "h / ?u = of_int n * 2 powi (k - ?e)" by (simp add: h power_int_diff)
  also have "\<dots> = of_int (n * 2 ^ nat (k - ?e))" using e by (simp add: power_int_def)
  finally have hu: "h / ?u = of_int (n * 2 ^ nat (k - ?e))" .
  have "x / ?u \<le> h / ?u" using xh u by (simp add: divide_right_mono)
  then have "round_even (x / ?u) \<le> n * 2 ^ nat (k - ?e)" unfolding hu by (rule round_even_le)
  then have "real_of_int (round_even (x / ?u)) \<le> h / ?u" unfolding hu by (simp only: of_int_le_iff)
  then have "real_of_int (round_even (x / ?u)) * ?u \<le> h" using u by (simp add: field_simps)
  moreover from y have "y = of_int (round_even (x / ?u)) * ?u"
    by (cases x rule: fl32_cases) simp_all
  ultimately show ?thesis by simp
qed

lemma fl32_lower:
  assumes xh: "l \<le> x" and xk: "\<bar>x\<bar> < 2 powi (k + 1)" and k: "- 126 \<le> k"
    and h: "l = of_int n * 2 powi (k - 23)" and y: "fl32 x = Fin y"
  shows "l \<le> y"
proof -
  let ?e = "f32_expo x"
  let ?u = "(2::real) powi (?e - 23)"
  have u: "0 < ?u" by simp
  have e: "?e \<le> k" using xk k by (rule f32_expo_le)
  have "l / ?u = of_int n * 2 powi (k - ?e)" by (simp add: h power_int_diff)
  also have "\<dots> = of_int (n * 2 ^ nat (k - ?e))" using e by (simp add: power_int_def)
  finally have hu: "l / ?u = of_int (n * 2 ^ nat (k - ?e))" .
  have "l / ?u \<le> x / ?u" using xh u by (simp add: divide_right_mono)
  then have "n * 2 ^ nat (k - ?e) \<le> round_even (x / ?u)" unfolding hu by (rule round_even_ge)
  then have "l / ?u \<le> real_of_int (round_even (x / ?u))" unfolding hu by (simp only: of_int_le_iff)
  then have "l \<le> real_of_int (round_even (x / ?u)) * ?u" using u by (simp add: field_simps)
  moreover from y have "y = of_int (round_even (x / ?u)) * ?u"
    by (cases x rule: fl32_cases) simp_all
  ultimately show ?thesis by simp
qed


text \<open>The roundings of the samples.\<close>

lemma fl32_milli: "fl32 (1 / 1000) = Fin (8589935 / 8589934592)"
  using fl32_at[of "-10" "1/1000"] by (simp add: round_even_def)

lemma fl32_three_halves: "fl32 (3 / 2) = Fin (3 / 2)"
  using fl32_repr[of "3 / 2" 3 "- 1"] by simp

lemma ex_half_rounding:
  "fl32 (1 / 2) = Fin (1 / 2)"
  "fl32 (1073741875 / 2147483648) = Fin (1 / 2)"
  using fl32_repr[of "1 / 2" 1 "- 1"] fl32_at[of "- 1" "1073741875 / 2147483648"]
  by (simp_all add: round_even_def)

lemma ex_lpf_rounding:
  "fl32 (3560991 / 65536) = Fin (3560991 / 65536)"
  "fl32 (17804955 / 32768) = Fin (4451239 / 8192)"
  "fl32 (4451239 / 8192) = Fin (4451239 / 8192)"
  "fl32 (4451239 / 81920) = Fin (14243965 / 262144)"
  using fl32_repr[of "3560991 / 65536" 3560991 "- 16"]
    fl32_at[of 9 "17804955 / 32768"]
    fl32_repr[of "4451239 / 8192" 4451239 "- 13"]
    fl32_at[of 5 "4451239 / 81920"]
  by (simp_all add: round_even_def)

lemma ex_lpf_rounding_three:
  "fl32 (17734041 / 131072) = Fin (2216755 / 16384)"
  "fl32 (2216755 / 16384) = Fin (2216755 / 16384)"
  "fl32 (2216755 / 49152) = Fin (11822693 / 262144)"
  using fl32_at[of 7 "17734041 / 131072"]
    fl32_repr[of "2216755 / 16384" 2216755 "- 14"]
    fl32_at[of 5 "2216755 / 49152"]
  by (simp_all add: round_even_def)

lemma ex_accel_rounding:
  "fl32 (25769805 / 8589934592) = Fin (6442451 / 2147483648)"
  "fl32 (32212255 / 1073741824) = Fin (1006633 / 33554432)"
  "fl32 (1006633 / 33554432) = Fin (1006633 / 33554432)"
  "fl32 (60129545 / 8589934592) = Fin (7516193 / 1073741824)"
  "fl32 (37580965 / 536870912) = Fin (9395241 / 134217728)"
  "fl32 (22826409001 / 134217728) = Fin (2786427 / 16384)"
  using fl32_at[of "- 9" "25769805 / 8589934592"]
    fl32_at[of "- 6" "32212255 / 1073741824"]
    fl32_repr[of "1006633 / 33554432" 1006633 "- 25"]
    fl32_at[of "- 8" "60129545 / 8589934592"]
    fl32_at[of "- 4" "37580965 / 536870912"]
    fl32_at[of 7 "22826409001 / 134217728"]
  by (simp_all add: round_even_def)

subsection \<open>The elapsed time and the structure of the callback\<close>

lemmas ex_f_defs = ex_csd_f_def ex_env_f_def ex_env_lpf_def

lemmas ex_s_defs = ex_zero_range_def ex_yrp_def ex_yrp_zero_def ex_yrp_zero_ff_def ex_ff_slow_def

lemmas stage_f_eval = axisStages_f_def processInput_f_def applyLPF_f_def lpfValue_f_def
  applyFF_f_def applyFeedForward_f_def gimbalTypeCorrection_f_def maxDelta_f_def accelLimit_f_def
  f_sub_def f_gt_def f_inf_def Let_def

lemmas tick_f_eval = attitudeUpdated_f_def processAxis_f_def stage_f_eval axisOutput_f_def
  bound_f_def servo1Mix_f_def servo2Mix_f_def dT_millis_f_def

lemma dT_millis_f_fl32:
  "\<exists>t. dT_millis_f fl32 r lastTime thisSysTime = Fin t \<and> 0 \<le> t \<and> t \<le> 2 ^ 32"
proof (cases "thisSysTime > lastTime")
  case False
  then show ?thesis by (simp add: dT_millis_f_def SAMPLE_PERIOD_MS_def fl32_numeral)
next
  case True
  define k where "k = unat ((thisSysTime - lastTime) * r)"
  have "k < 2 ^ 32" unfolding k_def using unsigned_less[of "(thisSysTime - lastTime) * r"] by simp
  then have kr: "real k < 2 ^ 32" by (metis of_nat_less_numeral_power_cancel_iff)
  have k0: "0 \<le> real k" by simp
  have "\<bar>real k\<bar> \<le> 2 ^ 127"
  proof -
    have "(2::real) ^ 32 \<le> 2 ^ 127" by simp
    then show ?thesis using kr k0 by linarith
  qed
  then obtain t where t: "fl32 (real k) = Fin t" using fl32_finite by blast
  have "0 \<le> t" by (rule fl32_nonneg[OF k0 t])
  moreover have "t \<le> 2 ^ 32"
  proof -
    have "t \<le> of_int (2 ^ 24) * 2 powi (31 - 23)"
      using kr by (intro fl32_upper[OF _ _ _ refl t]) simp_all
    then show ?thesis by simp
  qed
  ultimately show ?thesis using True t by (simp add: dT_millis_f_def k_def)
qed

lemma dT_millis_f_float:
  "dT_millis_f fl32 r lastTime thisSysTime = Fin t \<Longrightarrow> fl32 t = Fin t"
  by (auto simp add: dT_millis_f_def intro: fl32_idem split: if_splits)

lemma dT_millis_f_ge_one:
  assumes dT: "dT_millis_f fl32 r lastTime thisSysTime = Fin t" and pos: "0 < t"
  shows "1 \<le> t"
proof -
  obtain k :: nat where k: "fl32 (real k) = Fin t" and k32: "k < 2 ^ 32"
  proof (cases "thisSysTime > lastTime")
    case True
    show ?thesis
    proof (rule that[of "unat ((thisSysTime - lastTime) * r)"])
      show "fl32 (real (unat ((thisSysTime - lastTime) * r))) = Fin t"
        using dT True by (simp add: dT_millis_f_def)
      show "unat ((thisSysTime - lastTime) * r) < 2 ^ 32"
        using unsigned_less[of "(thisSysTime - lastTime) * r"] by simp
    qed
  next
    case False
    show ?thesis
      by (rule that[of SAMPLE_PERIOD_MS]) (use dT False in \<open>simp_all add: dT_millis_f_def SAMPLE_PERIOD_MS_def\<close>)
  qed
  have kr: "real k < 2 ^ 32" using k32 by (metis of_nat_less_numeral_power_cancel_iff)
  show ?thesis
  proof (cases "k < 2 ^ 24")
    case True
    then have "\<bar>int k\<bar> < 2 ^ 24" by simp
    from fl32_int[OF this] k have t: "t = real k" by simp
    with pos have "0 < k" by simp
    then show ?thesis using t by simp
  next
    case False
    then have "(2::real) ^ 24 \<le> real k" by (metis not_less numeral_power_le_of_nat_cancel_iff)
    then have "2 ^ 24 \<le> t"
      using kr by (intro fl32_lower[of "2 ^ 24" "real k" 31 "2 ^ 16", OF _ _ _ _ k]) simp_all
    then show ?thesis by simp
  qed
qed

lemma ex_dT_f: "dT_millis_f fl32 (portTICK_RATE_MS ex_build) (lastSysTime_f ex_csd_f)
     (taskTickCount_f (ex_env_f cs)) = Fin 10"
  by (simp add: dT_millis_f_def ex_defs ex_f_defs fl32_numeral)

text \<open>The callback is three runs of the axis stages, each followed by the output switch.\<close>

lemma processAxis_f_csd:
  "csd_f (processAxis_f b rnd env dT i s) = snd (axisStages_f b rnd env dT i (csd_f s))"
  by (simp add: processAxis_f_def Let_def split: prod.splits)


lemma processAxis_f_channels:
  obtains a t where
    "elevon_roll_f (processAxis_f b rnd env dT i s) =
       fst (setOutputChannels_f rnd (cameraStabSettings_f env) i
              (axisOutput_f rnd (cameraStabSettings_f env) i a t) (elevon_roll_f s, desired_f s))"
    "desired_f (processAxis_f b rnd env dT i s) =
       snd (setOutputChannels_f rnd (cameraStabSettings_f env) i
              (axisOutput_f rnd (cameraStabSettings_f env) i a t) (elevon_roll_f s, desired_f s))"
proof -
  obtain a2 d2 where st: "axisStages_f b rnd env dT i (csd_f s) = (a2, d2)" by fastforce
  show ?thesis
    by (rule that[of a2 "inputs_f d2 i"])
      (simp_all add: processAxis_f_def st Let_def split: prod.splits)
qed

lemma attitudeUpdated_f_sink:
  assumes "evObjIsAttitudeState_f env"
  obtains ar tr ap tp ay ty where
    "snd (attitudeUpdated_f b rnd env d) =
       snd (setOutputChannels_f rnd (cameraStabSettings_f env) Yaw
              (axisOutput_f rnd (cameraStabSettings_f env) Yaw ay ty)
              (setOutputChannels_f rnd (cameraStabSettings_f env) Pitch
                 (axisOutput_f rnd (cameraStabSettings_f env) Pitch ap tp)
                 (setOutputChannels_f rnd (cameraStabSettings_f env) Roll
                    (axisOutput_f rnd (cameraStabSettings_f env) Roll ar tr) (Fin 0, []))))"
proof -
  let ?cs = "cameraStabSettings_f env"
  let ?dT = "dT_millis_f rnd (portTICK_RATE_MS b) (lastSysTime_f d) (taskTickCount_f env)"
  define s0 where "s0 = \<lparr>csd_f = d\<lparr>lastSysTime_f := taskTickCount_f env\<rparr>, elevon_roll_f = Fin 0,
                         desired_f = []\<rparr>"
  define s1 where "s1 = processAxis_f b rnd env ?dT Roll s0"
  define s2 where "s2 = processAxis_f b rnd env ?dT Pitch s1"
  define s3 where "s3 = processAxis_f b rnd env ?dT Yaw s2"
  have out: "snd (attitudeUpdated_f b rnd env d) = desired_f s3"
    using assms by (simp add: attitudeUpdated_f_def Let_def s0_def s1_def s2_def s3_def)
  obtain ar tr where r:
    "(elevon_roll_f s1, desired_f s1) =
       setOutputChannels_f rnd ?cs Roll (axisOutput_f rnd ?cs Roll ar tr) (Fin 0, [])"
    using processAxis_f_channels[of b rnd env ?dT Roll s0] unfolding s1_def[symmetric]
    by (metis (no_types, lifting) loop_state_f.select_convs(2,3) prod.collapse s0_def)
  obtain ap tp where p:
    "(elevon_roll_f s2, desired_f s2) =
       setOutputChannels_f rnd ?cs Pitch (axisOutput_f rnd ?cs Pitch ap tp)
         (elevon_roll_f s1, desired_f s1)"
    using processAxis_f_channels[of b rnd env ?dT Pitch s1] unfolding s2_def[symmetric]
    by (metis prod.collapse)
  obtain ay ty where y:
    "(elevon_roll_f s3, desired_f s3) =
       setOutputChannels_f rnd ?cs Yaw (axisOutput_f rnd ?cs Yaw ay ty)
         (elevon_roll_f s2, desired_f s2)"
    using processAxis_f_channels[of b rnd env ?dT Yaw s2] unfolding s3_def[symmetric]
    by (metis prod.collapse)
  have "desired_f s3 =
       snd (setOutputChannels_f rnd ?cs Yaw (axisOutput_f rnd ?cs Yaw ay ty)
              (setOutputChannels_f rnd ?cs Pitch (axisOutput_f rnd ?cs Pitch ap tp)
                 (setOutputChannels_f rnd ?cs Roll (axisOutput_f rnd ?cs Roll ar tr) (Fin 0, []))))"
    by (simp only: r[symmetric] p[symmetric] y[symmetric] snd_conv)
  then show ?thesis using that out by simp
qed

lemma channels_f_unmixed:
  "GimbalType cs \<noteq> RollPitchMixed \<Longrightarrow>
   snd (setOutputChannels_f rnd cs Yaw y (setOutputChannels_f rnd cs Pitch p
          (setOutputChannels_f rnd cs Roll r (Fin 0, [])))) =
     [(RollOrServo1, r), (PitchOrServo2, p), (YawField, y)]"
  by simp

lemma channels_f_mixed:
  "GimbalType cs = RollPitchMixed \<Longrightarrow>
   snd (setOutputChannels_f rnd cs Yaw y (setOutputChannels_f rnd cs Pitch p
          (setOutputChannels_f rnd cs Roll r (Fin 0, [])))) =
     [(RollOrServo1, servo1Mix_f rnd cs p r), (PitchOrServo2, servo2Mix_f rnd cs p r),
      (YawField, y)]"
  by simp

text \<open>Every invocation for the attitude object makes the three calls, whatever the values are.\<close>

lemma attitudeUpdated_f_calls:
  assumes "evObjIsAttitudeState_f env"
  shows "map fst (snd (attitudeUpdated_f b rnd env d)) = [RollOrServo1, PitchOrServo2, YawField]"
proof -
  let ?cs = "cameraStabSettings_f env"
  from assms obtain ar tr ap tp ay ty where
    out: "snd (attitudeUpdated_f b rnd env d) =
       snd (setOutputChannels_f rnd ?cs Yaw (axisOutput_f rnd ?cs Yaw ay ty)
              (setOutputChannels_f rnd ?cs Pitch (axisOutput_f rnd ?cs Pitch ap tp)
                 (setOutputChannels_f rnd ?cs Roll (axisOutput_f rnd ?cs Roll ar tr) (Fin 0, []))))"
    by (rule attitudeUpdated_f_sink)
  show ?thesis
    unfolding out by (cases "GimbalType ?cs = RollPitchMixed") simp_all
qed

subsection \<open>Range of the values handed to the output setters\<close>

lemma rounds_within_exact: "rounds_within Fin lo hi"
  by (simp add: rounds_within_def)

lemma rounds_within_fl32:
  assumes "lo = of_int a / 2" "hi = of_int c / 2" "- 3 \<le> lo" "hi \<le> 3"
  shows "rounds_within fl32 lo hi"
  unfolding rounds_within_def
proof (intro allI impI)
  fix x assume x: "lo \<le> x \<and> x \<le> hi"
  then have ax: "\<bar>x\<bar> \<le> 3" using assms(3,4) by linarith
  moreover have "(3::real) \<le> 2 ^ 127" by simp
  ultimately have "\<bar>x\<bar> \<le> 2 ^ 127" by linarith
  then obtain y where y: "fl32 x = Fin y" using fl32_finite by blast
  have xk: "\<bar>x\<bar> < 2 powi (1 + 1)" using ax by simp
  have hi: "hi = of_int (c * 2 ^ 21) * 2 powi (1 - 23)" by (simp add: assms(2) power_int_minus)
  have lo: "lo = of_int (a * 2 ^ 21) * 2 powi (1 - 23)" by (simp add: assms(1) power_int_minus)
  have "y \<le> hi" using x by (intro fl32_upper[OF _ xk _ hi y]) simp_all
  moreover have "lo \<le> y" using x by (intro fl32_lower[OF _ xk _ lo y]) simp_all
  ultimately show "\<exists>y. fl32 x = Fin y \<and> lo \<le> y \<and> y \<le> hi" using y by blast
qed

lemma nan_or_within_iff:
  "nan_or_within lo hi v \<longleftrightarrow> v = NaN \<or> (\<exists>x. v = Fin x \<and> lo \<le> x \<and> x \<le> hi)"
  by (cases v) simp_all

lemma rounds_within_half_steps:
  assumes "rnd = fl32 \<or> rnd = Fin"
  shows "rounds_within rnd (- 2) 2" "rounds_within rnd 0 2" "rounds_within rnd (- 1) 3"
    "rounds_within rnd (- 1) 1" "rounds_within rnd (- (1 / 2)) (3 / 2)"
  using assms rounds_within_exact
    rounds_within_fl32[of "- 2" "- 4" 2 4] rounds_within_fl32[of 0 0 2 4]
    rounds_within_fl32[of "- 1" "- 2" 3 6] rounds_within_fl32[of "- 1" "- 2" 1 2]
    rounds_within_fl32[of "- (1 / 2)" "- 1" "3 / 2" 3]
  by auto

lemma bound_f_unit: "nan_or_within (- 1) 1 (bound_f q (Fin 1))"
  by (cases q) (simp_all add: bound_f_def f_gt_def)

lemma axisOutput_f_unit: "nan_or_within (- 1) 1 (axisOutput_f rnd cs i a t)"
  unfolding axisOutput_f_def by (rule bound_f_unit)

lemma f_add_within:
  assumes "rounds_within rnd (la + lb) (ha + hb)" "nan_or_within la ha a" "nan_or_within lb hb b"
  shows "nan_or_within (la + lb) (ha + hb) (f_add rnd a b)"
proof (cases a)
  case a: (Fin x)
  show ?thesis
  proof (cases b)
    case b: (Fin y)
    have "la + lb \<le> x + y \<and> x + y \<le> ha + hb" using assms(2,3) a b by simp
    then obtain z where "rnd (x + y) = Fin z" "la + lb \<le> z" "z \<le> ha + hb"
      using assms(1) unfolding rounds_within_def by blast
    then show ?thesis using a b by simp
  qed (use assms a in simp_all)
next
  case NaN
  then show ?thesis by simp
next
  case PInf
  then show ?thesis using assms(2) by simp
next
  case NInf
  then show ?thesis using assms(2) by simp
qed

lemma f_neg_within: "nan_or_within lo hi b \<Longrightarrow> nan_or_within (- hi) (- lo) (f_neg b)"
  by (cases b) simp_all

lemma f_sub_within:
  assumes "rounds_within rnd (la - hb) (ha - lb)" "nan_or_within la ha a" "nan_or_within lb hb b"
  shows "nan_or_within (la - hb) (ha - lb) (f_sub rnd a b)"
  using f_add_within[of rnd la "- hb" ha "- lb" a "f_neg b"] assms f_neg_within[of lb hb b]
  by (simp add: f_sub_def)

lemma f_half_within:
  assumes "rounds_within rnd (lo / 2) (hi / 2)" "nan_or_within lo hi a"
  shows "nan_or_within (lo / 2) (hi / 2) (f_div rnd a (Fin 2))"
proof (cases a)
  case (Fin x)
  then have "lo / 2 \<le> x / 2 \<and> x / 2 \<le> hi / 2" using assms(2) by simp
  then obtain z where "rnd (x / 2) = Fin z" "lo / 2 \<le> z" "z \<le> hi / 2"
    using assms(1) unfolding rounds_within_def by blast
  then show ?thesis using Fin by simp
qed (use assms in simp_all)

lemma servo1Mix_f_range:
  assumes rnd: "rnd = fl32 \<or> rnd = Fin" and p: "nan_or_within (- 1) 1 p" and r: "nan_or_within (- 1) 1 r"
  shows "if Servo1PitchReverse cs then nan_or_within (- (1 / 2)) (3 / 2) (servo1Mix_f rnd cs p r)
         else nan_or_within (- 1) 1 (servo1Mix_f rnd cs p r)"
proof -
  note rw = rounds_within_half_steps[OF rnd]
  have s: "nan_or_within (- 2) 2 (f_add rnd p r)"
    using f_add_within[of rnd "- 1" "- 1" 1 1 p r] rw p r by simp
  have a: "nan_or_within 0 2 (f_sub rnd (Fin 1) p)"
    using f_sub_within[of rnd 1 1 1 "- 1" "Fin 1" p] rw p by simp
  have b: "nan_or_within (- 1) 3 (f_add rnd (f_sub rnd (Fin 1) p) r)"
    using f_add_within[of rnd 0 "- 1" 2 1 "f_sub rnd (Fin 1) p" r] rw a r by simp
  show ?thesis
    using f_half_within[of rnd "- 2" 2, OF _ s] f_half_within[of rnd "- 1" 3, OF _ b] rw
    by (simp add: servo1Mix_f_def)
qed

lemma servo2Mix_f_range:
  assumes rnd: "rnd = fl32 \<or> rnd = Fin" and p: "nan_or_within (- 1) 1 p" and r: "nan_or_within (- 1) 1 r"
  shows "if Servo2PitchReverse cs then nan_or_within (- (1 / 2)) (3 / 2) (servo2Mix_f rnd cs p r)
         else nan_or_within (- 1) 1 (servo2Mix_f rnd cs p r)"
proof -
  note rw = rounds_within_half_steps[OF rnd]
  have s: "nan_or_within (- 2) 2 (f_sub rnd p r)"
    using f_sub_within[of rnd "- 1" 1 1 "- 1" p r] rw p r by simp
  have a: "nan_or_within 0 2 (f_sub rnd (Fin 1) p)"
    using f_sub_within[of rnd 1 1 1 "- 1" "Fin 1" p] rw p by simp
  have b: "nan_or_within (- 1) 3 (f_sub rnd (f_sub rnd (Fin 1) p) r)"
    using f_sub_within[of rnd 0 1 2 "- 1" "f_sub rnd (Fin 1) p" r] rw a r by simp
  show ?thesis
    using f_half_within[of rnd "- 2" 2, OF _ s] f_half_within[of rnd "- 1" 3, OF _ b] rw
    by (simp add: servo2Mix_f_def)
qed

lemma ex_mixed_tick:
  "snd (attitudeUpdated_f ex_build fl32 (ex_env_f ex_mixed) ex_csd_f) =
     [(RollOrServo1, Fin (3 / 2)), (PitchOrServo2, Fin (- 1)), (YawField, Fin 0)]"
  by (simp add: tick_f_eval ex_defs ex_f_defs fl32_numeral fl32_neg_numeral fl32_three_halves)

lemma ex_zero_yaw_tick:
  "snd (attitudeUpdated_f ex_build fl32 (ex_env_f (ex_zero_range Yaw)) ex_csd_f) =
     [(RollOrServo1, Fin 1), (PitchOrServo2, Fin (- 1)), (YawField, NaN)]"
  by (simp add: tick_f_eval ex_defs ex_f_defs ex_zero_range_def fl32_numeral fl32_neg_numeral
      fl32_three_halves)


text \<open>
  C1 (amended). For every invocation of the callback, in binary32 and in exact arithmetic,
  whatever the settings, the attitude and the stored state are: every value handed to a
  setter of the output object is NaN or lies in [-1, 1], except that in the RollPitchMixed
  geometry a combined channel whose pitch-reversal flag is set is NaN or lies in
  [-1/2, 3/2]. The reversed pitch is \<open>1 - pitch\<close>, which ranges over [0, 2], and the
  combined channels are not clamped: with servo 1 reversed, roll output 1 and pitch output
  -1, channel 1 is 3/2. \<^verbatim>\<open>bound\<close> hands a NaN through, as both of its comparisons are
  false: a zero output range under a zero numerator sends NaN to the setter.
\<close>

theorem sink_values_nan_or_range:
  assumes rnd: "rnd = fl32 \<or> rnd = Fin"
    and fv: "(f, v) \<in> set (snd (attitudeUpdated_f b rnd env d))"
  shows "if mixedReversed (cameraStabSettings_f env) f
         then nan_or_within (- (1 / 2)) (3 / 2) v
         else nan_or_within (- 1) 1 v"
proof (cases "evObjIsAttitudeState_f env")
  case False
  with fv show ?thesis by (simp add: attitudeUpdated_f_def)
next
  case True
  let ?cs = "cameraStabSettings_f env"
  from True obtain ar tr ap tp ay ty where
    out: "snd (attitudeUpdated_f b rnd env d) =
       snd (setOutputChannels_f rnd ?cs Yaw (axisOutput_f rnd ?cs Yaw ay ty)
              (setOutputChannels_f rnd ?cs Pitch (axisOutput_f rnd ?cs Pitch ap tp)
                 (setOutputChannels_f rnd ?cs Roll (axisOutput_f rnd ?cs Roll ar tr) (Fin 0, []))))"
    by (rule attitudeUpdated_f_sink)
  note u = axisOutput_f_unit[of rnd ?cs Roll ar tr] axisOutput_f_unit[of rnd ?cs Pitch ap tp]
    axisOutput_f_unit[of rnd ?cs Yaw ay ty]
  show ?thesis
  proof (cases "GimbalType ?cs = RollPitchMixed")
    case False
    then show ?thesis
      using fv u unfolding out channels_f_unmixed[OF False]
      by (auto simp add: mixedReversed_def)
  next
    case True
    show ?thesis
      using fv u servo1Mix_f_range[OF rnd u(2) u(1), of ?cs] servo2Mix_f_range[OF rnd u(2) u(1), of ?cs]
      unfolding out channels_f_mixed[OF True]
      by (auto simp add: mixedReversed_def True split: if_splits)
  qed
qed

theorem sink_values_nan_or_range_witness:
  "(RollOrServo1, Fin (3 / 2)) \<in> set (snd (attitudeUpdated_f ex_build fl32 (ex_env_f ex_mixed) ex_csd_f)) \<and>
   mixedReversed (cameraStabSettings_f (ex_env_f ex_mixed)) RollOrServo1 \<and>
   nan_or_within (- (1 / 2)) (3 / 2) (Fin (3 / 2)) \<and>
   (YawField, NaN) \<in> set (snd (attitudeUpdated_f ex_build fl32 (ex_env_f (ex_zero_range Yaw)) ex_csd_f)) \<and>
   \<not> mixedReversed (cameraStabSettings_f (ex_env_f (ex_zero_range Yaw))) YawField \<and>
   nan_or_within (- 1) 1 NaN"
proof -
  have m: "(RollOrServo1, Fin (3 / 2)) \<in>
             set (snd (attitudeUpdated_f ex_build fl32 (ex_env_f ex_mixed) ex_csd_f))"
    by (simp add: ex_mixed_tick)
  have z: "(YawField, NaN) \<in>
             set (snd (attitudeUpdated_f ex_build fl32 (ex_env_f (ex_zero_range Yaw)) ex_csd_f))"
    by (simp add: ex_zero_yaw_tick)
  have r: "mixedReversed (cameraStabSettings_f (ex_env_f ex_mixed)) RollOrServo1"
    "\<not> mixedReversed (cameraStabSettings_f (ex_env_f (ex_zero_range Yaw))) YawField"
    by (simp_all add: mixedReversed_def ex_defs ex_f_defs ex_zero_range_def)
  show ?thesis
    using sink_values_nan_or_range[OF _ m] sink_values_nan_or_range[OF _ z] m z r by simp
qed

theorem sink_values_counterexample:
  "snd (attitudeUpdated_f ex_build fl32 (ex_env_f ex_mixed) ex_csd_f) =
     [(RollOrServo1, Fin (3 / 2)), (PitchOrServo2, Fin (- 1)), (YawField, Fin 0)] \<and>
   \<not> (3 / 2 \<le> (1::real))"
  by (simp add: ex_mixed_tick)

subsection \<open>Attitude low-pass filter with a zero response time\<close>

lemma lpfValue_f_zero_rt:
  "lpfValue_f fl32 (Fin 0) (Fin t) (Fin prev) (Fin raw) =
     f_div fl32 (f_add fl32 (Fin 0) (fl32 (t * raw))) (fl32 t)"
  by (simp add: lpfValue_f_def)

lemma two_roundings:
  fixes y1 y2 T x :: real
  assumes e1: "\<bar>y1 - x\<bar> \<le> T / 2 ^ 24 + 1 / 2 ^ 150"
    and e2: "\<bar>y2 - y1\<bar> \<le> \<bar>y1\<bar> / 2 ^ 24 + 1 / 2 ^ 150"
    and T: "\<bar>x\<bar> = T"
  shows "\<bar>y2 - x\<bar> \<le> T * (2 / 2 ^ 24 + 1 / 2 ^ 48) + 3 / 2 ^ 150"
proof -
  have a1: "\<bar>y1\<bar> \<le> T + T / 2 ^ 24 + 1 / 2 ^ 150" using e1 T by linarith
  have tri: "\<bar>y2 - x\<bar> \<le> \<bar>y2 - y1\<bar> + \<bar>y1 - x\<bar>" by linarith
  have "\<bar>y1\<bar> / 2 ^ 24 \<le> (T + T / 2 ^ 24 + 1 / 2 ^ 150) / 2 ^ 24"
    using a1 by (intro divide_right_mono) simp_all
  also have "\<dots> = T / 2 ^ 24 + T / 2 ^ 48 + 1 / 2 ^ 174" by (simp add: field_simps)
  finally have b: "\<bar>y1\<bar> / 2 ^ 24 \<le> T / 2 ^ 24 + T / 2 ^ 48 + 1 / 2 ^ 174" .
  have c: "(1 / 2 ^ 174 :: real) \<le> 1 / 2 ^ 150" by simp
  have "\<bar>y2 - x\<bar> \<le> T / 2 ^ 24 + T / 2 ^ 48 + 1 / 2 ^ 174 + 1 / 2 ^ 150 + (T / 2 ^ 24 + 1 / 2 ^ 150)"
    using tri e1 e2 b by linarith
  also have "\<dots> \<le> T * (2 / 2 ^ 24 + 1 / 2 ^ 48) + 3 / 2 ^ 150"
    using c by (simp add: algebra_simps)
  finally show ?thesis .
qed

lemma third_rounding:
  fixes out q raw R :: real
  assumes e3: "\<bar>out - q\<bar> \<le> \<bar>q\<bar> / 2 ^ 24 + 1 / 2 ^ 150"
    and q: "\<bar>q - raw\<bar> \<le> R * (2 / 2 ^ 24 + 1 / 2 ^ 48) + 3 / 2 ^ 150"
    and R: "\<bar>raw\<bar> = R"
  shows "\<bar>out - raw\<bar> \<le> R / 2 ^ 22 + 1 / 2 ^ 147"
proof -
  have R0: "0 \<le> R" using R by linarith
  have aq: "\<bar>q\<bar> \<le> R + R * (2 / 2 ^ 24 + 1 / 2 ^ 48) + 3 / 2 ^ 150" using q R by linarith
  have "\<bar>q\<bar> / 2 ^ 24 \<le> (R + R * (2 / 2 ^ 24 + 1 / 2 ^ 48) + 3 / 2 ^ 150) / 2 ^ 24"
    using aq by (intro divide_right_mono) simp_all
  also have "\<dots> = R / 2 ^ 24 + R * 2 / 2 ^ 48 + R / 2 ^ 72 + 3 / 2 ^ 174"
    by (simp add: field_simps)
  finally have b: "\<bar>q\<bar> / 2 ^ 24 \<le> R / 2 ^ 24 + R * 2 / 2 ^ 48 + R / 2 ^ 72 + 3 / 2 ^ 174" .
  have r1: "R * 2 / 2 ^ 48 \<le> R / 2 ^ 26" using R0 by (simp add: field_simps)
  have r2: "R / 2 ^ 72 \<le> R / 2 ^ 26" using R0 by (simp add: field_simps)
  have r3: "R * (2 / 2 ^ 24 + 1 / 2 ^ 48) \<le> R / 2 ^ 23 + R / 2 ^ 26" using R0 by (simp add: field_simps)
  have r4: "R / 2 ^ 24 + R / 2 ^ 26 + R / 2 ^ 26 + (R / 2 ^ 23 + R / 2 ^ 26) \<le> R / 2 ^ 22"
    using R0 by (simp add: field_simps)
  have c: "(3 / 2 ^ 174 :: real) + 1 / 2 ^ 150 + 3 / 2 ^ 150 \<le> 1 / 2 ^ 147" by simp
  have "\<bar>out - raw\<bar> \<le> \<bar>out - q\<bar> + \<bar>q - raw\<bar>" by linarith
  then show ?thesis using e3 q b r1 r2 r3 r4 c by linarith
qed

lemma lpf_binary32_error:
  assumes t: "1 \<le> t" and tf: "fl32 t = Fin t"
    and out: "lpfValue_f fl32 (Fin 0) (Fin t) (Fin prev) (Fin raw) = Fin out"
  shows "\<bar>out - raw\<bar> \<le> \<bar>raw\<bar> / 2 ^ 22 + 1 / 2 ^ 147"
proof -
  have t0: "0 < t" "t \<noteq> 0" using t by simp_all
  from out have o1: "f_div fl32 (f_add fl32 (Fin 0) (fl32 (t * raw))) (Fin t) = Fin out"
    by (simp add: lpfValue_f_zero_rt tf)
  obtain y1 where y1: "fl32 (t * raw) = Fin y1"
    using o1 fl32_not_NaN[of "t * raw"] by (cases "fl32 (t * raw)") (simp_all add: f_inf_def split: if_splits)
  obtain y2 where y2: "fl32 y1 = Fin y2"
    using o1 fl32_not_NaN[of y1] unfolding y1
    by (cases "fl32 y1") (simp_all add: f_inf_def split: if_splits)
  have o: "fl32 (y2 / t) = Fin out" using o1 t0 by (simp add: y1 y2)
  define R where "R = \<bar>raw\<bar>"
  have T: "\<bar>t * raw\<bar> = t * R" using t0 by (simp add: R_def abs_mult)
  have R0: "0 \<le> R" by (simp add: R_def)
  have e1: "\<bar>y1 - t * raw\<bar> \<le> t * R / 2 ^ 24 + 1 / 2 ^ 150" using fl32_err[OF y1] T by simp
  have e2: "\<bar>y2 - y1\<bar> \<le> \<bar>y1\<bar> / 2 ^ 24 + 1 / 2 ^ 150" by (rule fl32_err[OF y2])
  have e3: "\<bar>out - y2 / t\<bar> \<le> \<bar>y2 / t\<bar> / 2 ^ 24 + 1 / 2 ^ 150" by (rule fl32_err[OF o])
  have d2: "\<bar>y2 - t * raw\<bar> \<le> t * R * (2 / 2 ^ 24 + 1 / 2 ^ 48) + 3 / 2 ^ 150"
    by (rule two_roundings[OF e1 e2 T])
  have "\<bar>y2 / t - raw\<bar> * t = \<bar>y2 - t * raw\<bar>"
  proof -
    have "\<bar>y2 / t - raw\<bar> * t = \<bar>(y2 / t - raw) * t\<bar>" using t0 by (simp add: abs_mult)
    also have "(y2 / t - raw) * t = y2 - t * raw" using t0 by (simp add: field_simps)
    finally show ?thesis .
  qed
  also have "\<dots> \<le> t * R * (2 / 2 ^ 24 + 1 / 2 ^ 48) + 3 / 2 ^ 150" by (rule d2)
  also have "\<dots> \<le> (R * (2 / 2 ^ 24 + 1 / 2 ^ 48) + 3 / 2 ^ 150) * t"
  proof -
    have "(3 / 2 ^ 150 :: real) * 1 \<le> 3 / 2 ^ 150 * t" using t by (intro mult_left_mono) simp_all
    then show ?thesis by (simp add: algebra_simps)
  qed
  finally have q: "\<bar>y2 / t - raw\<bar> \<le> R * (2 / 2 ^ 24 + 1 / 2 ^ 48) + 3 / 2 ^ 150"
    using t0 by simp
  have "\<bar>raw\<bar> = R" by (simp add: R_def)
  from third_rounding[OF e3 q this] show ?thesis by (simp add: R_def)
qed

lemma lpf_binary32_finite:
  assumes t: "1 \<le> t" and tf: "fl32 t = Fin t" and small: "\<bar>t * raw\<bar> \<le> 2 ^ 126"
  shows "\<exists>out. lpfValue_f fl32 (Fin 0) (Fin t) (Fin prev) (Fin raw) = Fin out"
proof -
  have t0: "0 < t" "t \<noteq> 0" using t by simp_all
  obtain y1 where y1: "fl32 (t * raw) = Fin y1"
    using fl32_finite[of "t * raw"] small by auto
  have a1: "\<bar>y1\<bar> \<le> 2 ^ 126 + 2 ^ 126 / 2 ^ 24 + 1 / 2 ^ 150"
    using fl32_abs_le[OF y1] small by (simp add: field_simps) 
  then have "\<bar>y1\<bar> \<le> 2 ^ 127" by simp
  then obtain y2 where y2: "fl32 y1 = Fin y2" using fl32_finite by blast
  have "\<bar>y2\<bar> \<le> \<bar>y1\<bar> + \<bar>y1\<bar> / 2 ^ 24 + 1 / 2 ^ 150" using fl32_abs_le[OF y2] by simp
  then have a2: "\<bar>y2\<bar> \<le> 2 ^ 127" using a1 by (simp add: field_simps)
  have "\<bar>y2 / t\<bar> \<le> \<bar>y2\<bar>"
  proof -
    have "\<bar>y2 / t\<bar> = \<bar>y2\<bar> / t" using t0 by simp
    also have "\<dots> \<le> \<bar>y2\<bar> / 1" using t by (intro divide_left_mono) simp_all
    finally show ?thesis by simp
  qed
  then have "\<bar>y2 / t\<bar> \<le> 2 ^ 127" using a2 by linarith
  then obtain out where "fl32 (y2 / t) = Fin out" using fl32_finite by blast
  then show ?thesis using t0 by (simp add: lpfValue_f_zero_rt tf y1 y2)
qed

lemma lpf_binary32_exact:
  assumes t: "t \<noteq> 0" and tf: "fl32 t = Fin t"
    and rf: "fl32 raw = Fin raw" and pf: "fl32 (t * raw) = Fin (t * raw)"
  shows "lpfValue_f fl32 (Fin 0) (Fin t) (Fin prev) (Fin raw) = Fin raw"
  using t by (simp add: lpfValue_f_zero_rt tf pf rf)

lemma lpfValue_f_exact:
  "t \<noteq> 0 \<Longrightarrow> lpfValue_f Fin (Fin 0) (Fin t) (Fin prev) (Fin raw) = Fin raw"
  by (simp add: lpfValue_f_def)

lemma lpfValue_f_nan_prev:
  "rnd = fl32 \<or> rnd = Fin \<Longrightarrow> prev = PInf \<or> prev = NInf \<or> prev = NaN \<Longrightarrow>
   lpfValue_f rnd (Fin 0) (Fin t) prev (Fin raw) = NaN"
  by (cases "rnd (t * raw)") (auto simp add: lpfValue_f_def)

lemma lpf_zero_response_time_three_ms:
  "lpfValue_f fl32 (fl32 (real_of_int 0)) (Fin 3) (Fin 7) (Fin (5911347 / 131072)) =
     Fin (11822693 / 262144) \<and>
   (11822693 / 262144 :: real) \<noteq> 5911347 / 131072"
  by (simp add: lpfValue_f_def fl32_numeral ex_lpf_rounding_three)

lemma processInput_f_attitudeFiltered:
  "attitudeFiltered_f (processInput_f rnd cs acc dT i d) = attitudeFiltered_f d"
  by (simp add: processInput_f_def Let_def split: input_sel.split option.split stab_mode.split)

lemma applyFF_f_attitudeFiltered:
  "attitudeFiltered_f (snd (applyFF_f b rnd cs att dT i a d)) = attitudeFiltered_f d"
  by (simp add: applyFF_f_def applyFeedForward_f_def Let_def)

lemma axisStages_f_attitudeFiltered:
  "attitudeFiltered_f (snd (axisStages_f b rnd env dT i d)) =
     (if USE_GIMBAL_LPF b
      then (attitudeFiltered_f d)(i :=
             lpfValue_f rnd (rnd (real_of_int (ResponseTime (cameraStabSettings_f env) i))) dT
               (attitudeFiltered_f d i) (attitudeState_f env i))
      else attitudeFiltered_f d)"
  by (simp add: axisStages_f_def applyLPF_f_def Let_def applyFF_f_attitudeFiltered
      processInput_f_attitudeFiltered)

lemma attitudeUpdated_f_attitudeFiltered:
  assumes "evObjIsAttitudeState_f env" "USE_GIMBAL_LPF b"
  shows "attitudeFiltered_f (fst (attitudeUpdated_f b rnd env d)) i =
     lpfValue_f rnd (rnd (real_of_int (ResponseTime (cameraStabSettings_f env) i)))
       (dT_millis_f rnd (portTICK_RATE_MS b) (lastSysTime_f d) (taskTickCount_f env))
       (attitudeFiltered_f d i) (attitudeState_f env i)"
  using assms
  by (cases i)
    (simp_all add: attitudeUpdated_f_def Let_def processAxis_f_csd axisStages_f_attitudeFiltered)

text \<open>
  C5 (amended). With the filter compiled in, a response time of 0, a positive elapsed time
  \<open>t\<close> and finite raw and previous values, the value the callback stores as
  \<open>attitudeFiltered\<close> (and hands on as the attitude) is in binary32 the rounded quotient
  of the rounded product \<open>t * raw\<close> by \<open>t\<close>. It is the raw sample when the sample and the
  product are binary32 numbers; it is finite when \<open>\<bar>t * raw\<bar> \<le> 2 ^ 126\<close>; and when it is
  finite it differs from the raw sample by at most \<open>\<bar>raw\<bar> / 2 ^ 22 + 1 / 2 ^ 147\<close>. It is
  not always the raw sample: with \<open>t = 10\<close> and the binary32 sample 3560991/65536 the
  product rounds to 4451239/8192 and the quotient to 14243965/262144 (and with \<open>t = 3\<close> the
  sample 5911347/131072 gives 11822693/262144, \<open>lpf_zero_response_time_three_ms\<close>). In
  exact arithmetic the value is the raw sample (\<open>lpfValue_f_exact\<close>), and a previous
  value that is an infinity or NaN gives NaN (\<open>lpfValue_f_nan_prev\<close>).
\<close>

theorem lpf_zero_response_time_binary32:
  assumes ev: "evObjIsAttitudeState_f env" and lpf: "USE_GIMBAL_LPF b"
    and rt: "ResponseTime (cameraStabSettings_f env) i = 0"
    and dT: "dT_millis_f fl32 (portTICK_RATE_MS b) (lastSysTime_f d) (taskTickCount_f env) = Fin t"
    and pos: "0 < t"
    and raw: "attitudeState_f env i = Fin raw" and prev: "attitudeFiltered_f d i = Fin prev"
  shows "(fl32 raw = Fin raw \<and> fl32 (t * raw) = Fin (t * raw) \<longrightarrow>
            attitudeFiltered_f (fst (attitudeUpdated_f b fl32 env d)) i = Fin raw) \<and>
         (\<bar>t * raw\<bar> \<le> 2 ^ 126 \<longrightarrow>
            (\<exists>out. attitudeFiltered_f (fst (attitudeUpdated_f b fl32 env d)) i = Fin out)) \<and>
         (\<forall>out. attitudeFiltered_f (fst (attitudeUpdated_f b fl32 env d)) i = Fin out \<longrightarrow>
            \<bar>out - raw\<bar> \<le> \<bar>raw\<bar> / 2 ^ 22 + 1 / 2 ^ 147)"
proof -
  have t1: "1 \<le> t" using dT pos by (rule dT_millis_f_ge_one)
  have tf: "fl32 t = Fin t" using dT by (rule dT_millis_f_float)
  have v: "attitudeFiltered_f (fst (attitudeUpdated_f b fl32 env d)) i =
             lpfValue_f fl32 (Fin 0) (Fin t) (Fin prev) (Fin raw)"
    by (simp add: attitudeUpdated_f_attitudeFiltered[OF ev lpf] rt dT raw prev)
  show ?thesis
    unfolding v
    using lpf_binary32_exact[OF _ tf, of raw prev] lpf_binary32_finite[OF t1 tf, of raw prev]
      lpf_binary32_error[OF t1 tf, of prev raw] pos
    by auto
qed

theorem lpf_zero_response_time_binary32_witness:
  "evObjIsAttitudeState_f (ex_env_f ex_settings) \<and> USE_GIMBAL_LPF ex_build \<and>
   ResponseTime (cameraStabSettings_f (ex_env_f ex_settings)) Roll = 0 \<and>
   dT_millis_f fl32 (portTICK_RATE_MS ex_build) (lastSysTime_f ex_csd_f)
     (taskTickCount_f (ex_env_f ex_settings)) = Fin 10 \<and> (0::real) < 10 \<and>
   attitudeState_f (ex_env_f ex_settings) Roll = Fin 45 \<and> attitudeFiltered_f ex_csd_f Roll = Fin 0 \<and>
   fl32 45 = Fin 45 \<and> fl32 (10 * 45) = Fin (10 * 45) \<and> \<bar>10 * 45\<bar> \<le> (2 ^ 126 :: real) \<and>
   attitudeFiltered_f (fst (attitudeUpdated_f ex_build fl32 (ex_env_f ex_settings) ex_csd_f)) Roll =
     Fin 45 \<and>
   \<bar>45 - 45\<bar> \<le> \<bar>45\<bar> / 2 ^ 22 + 1 / (2 ^ 147 :: real)"
proof -
  have h: "evObjIsAttitudeState_f (ex_env_f ex_settings)" "USE_GIMBAL_LPF ex_build"
    "ResponseTime (cameraStabSettings_f (ex_env_f ex_settings)) Roll = 0"
    "attitudeState_f (ex_env_f ex_settings) Roll = Fin 45" "attitudeFiltered_f ex_csd_f Roll = Fin 0"
    by (simp_all add: ex_defs ex_f_defs)
  have r: "fl32 45 = Fin 45" "fl32 (10 * 45) = Fin (10 * 45)" by (simp_all add: fl32_numeral)
  show ?thesis
    using lpf_zero_response_time_binary32[OF h(1,2,3) ex_dT_f _ h(4,5)] h r ex_dT_f
    by simp
qed

theorem lpf_zero_response_time_counterexample:
  "USE_GIMBAL_LPF ex_build \<and> ResponseTime (cameraStabSettings_f ex_env_lpf) Roll = 0 \<and>
   dT_millis_f fl32 (portTICK_RATE_MS ex_build) (lastSysTime_f ex_csd_f)
     (taskTickCount_f ex_env_lpf) = Fin 10 \<and>
   attitudeState_f ex_env_lpf Roll = Fin (3560991 / 65536) \<and>
   fl32 (3560991 / 65536) = Fin (3560991 / 65536) \<and>
   attitudeFiltered_f (fst (attitudeUpdated_f ex_build fl32 ex_env_lpf ex_csd_f)) Roll =
     Fin (14243965 / 262144) \<and>
   (14243965 / 262144 :: real) \<noteq> 3560991 / 65536"
proof -
  have h: "evObjIsAttitudeState_f ex_env_lpf" "USE_GIMBAL_LPF ex_build"
    by (simp_all add: ex_defs ex_f_defs)
  have dT: "dT_millis_f fl32 (portTICK_RATE_MS ex_build) (lastSysTime_f ex_csd_f)
     (taskTickCount_f ex_env_lpf) = Fin 10"
    by (simp add: dT_millis_f_def ex_defs ex_f_defs fl32_numeral)
  have "lpfValue_f fl32 (Fin 0) (Fin 10) (Fin 0) (Fin (3560991 / 65536)) = Fin (14243965 / 262144)"
    by (simp add: lpfValue_f_def ex_lpf_rounding fl32_numeral)
  then show ?thesis
    unfolding attitudeUpdated_f_attitudeFiltered[OF h] dT
    by (simp add: ex_defs ex_f_defs ex_lpf_rounding)
qed

subsection \<open>Feed-forward acceleration limit\<close>

lemma unlimited_step:
  fixes dv x mm :: real
  assumes e: "\<bar>dv - x\<bar> \<le> \<bar>x\<bar> / 2 ^ 24 + 1 / 2 ^ 150" and d: "\<bar>dv\<bar> \<le> mm"
  shows "\<bar>x\<bar> \<le> mm + mm / 2 ^ 23 + 1 / 2 ^ 149"
proof -
  have "\<bar>x\<bar> \<le> \<bar>dv\<bar> + \<bar>dv - x\<bar>" by linarith
  then have 1: "\<bar>x\<bar> \<le> mm + \<bar>x\<bar> / 2 ^ 24 + 1 / 2 ^ 150" using e d by linarith
  have "\<bar>x\<bar> / 2 ^ 24 \<le> \<bar>x\<bar> / 2" by (simp add: field_simps)
  then have 2: "\<bar>x\<bar> \<le> 2 * mm + 2 / 2 ^ 150" using 1 by linarith
  have "\<bar>x\<bar> / 2 ^ 24 \<le> (2 * mm + 2 / 2 ^ 150) / 2 ^ 24"
    using 2 by (intro divide_right_mono) simp_all
  also have "\<dots> = mm / 2 ^ 23 + 1 / 2 ^ 173" by (simp add: field_simps)
  finally have 3: "\<bar>x\<bar> / 2 ^ 24 \<le> mm / 2 ^ 23 + 1 / 2 ^ 173" .
  have c: "(1 / 2 ^ 173 :: real) + 1 / 2 ^ 150 \<le> 1 / 2 ^ 149" by simp
  show ?thesis using 1 3 c by linarith
qed

lemma limited_step:
  fixes n l s mm :: real
  assumes e: "\<bar>n - (l + s)\<bar> \<le> \<bar>l + s\<bar> / 2 ^ 24 + 1 / 2 ^ 150" and s: "\<bar>s\<bar> = mm"
  shows "\<bar>n - l\<bar> \<le> mm + mm / 2 ^ 23 + \<bar>l\<bar> / 2 ^ 24 + 1 / 2 ^ 149"
proof -
  have mm0: "0 \<le> mm" using s by linarith
  have "\<bar>l + s\<bar> \<le> \<bar>l\<bar> + mm" using s by linarith
  then have "\<bar>l + s\<bar> / 2 ^ 24 \<le> (\<bar>l\<bar> + mm) / 2 ^ 24"
    by (intro divide_right_mono) simp_all
  also have "\<dots> = \<bar>l\<bar> / 2 ^ 24 + mm / 2 ^ 24" by (simp add: field_simps)
  finally have 1: "\<bar>l + s\<bar> / 2 ^ 24 \<le> \<bar>l\<bar> / 2 ^ 24 + mm / 2 ^ 24" .
  have 2: "mm / 2 ^ 24 \<le> mm / 2 ^ 23" using mm0 by (simp add: field_simps)
  have c: "(1 / 2 ^ 150 :: real) \<le> 1 / 2 ^ 149" by simp
  have "\<bar>n - l\<bar> \<le> \<bar>n - (l + s)\<bar> + \<bar>s\<bar>" by linarith
  then show ?thesis using e 1 2 c s by linarith
qed

lemma product_roundings:
  fixes p1 mm A t cv :: real
  assumes p1: "\<bar>p1 - A * cv\<bar> \<le> \<bar>A * cv\<bar> / 2 ^ 24 + 1 / 2 ^ 150"
    and m: "\<bar>mm - p1 * t\<bar> \<le> \<bar>p1 * t\<bar> / 2 ^ 24 + 1 / 2 ^ 150"
    and A: "0 \<le> A" and t: "0 \<le> t" "t \<le> 2 ^ 32"
    and cv: "0 \<le> cv" "cv \<le> 1 / 1000 + 1 / (1000 * 2 ^ 24)"
  shows "mm \<le> A * t / 1000 + A * t / (1000 * 2 ^ 22) + 1 / 2 ^ 116"
proof -
  define P where "P = A * t / 1000"
  have P0: "0 \<le> P" using A t by (simp add: P_def)
  have acv: "\<bar>A * cv\<bar> = A * cv" using A cv by simp
  have "A * cv \<le> A * (1 / 1000 + 1 / (1000 * 2 ^ 24))" using A cv by (intro mult_left_mono) simp_all
  then have a1: "A * cv \<le> A / 1000 + A / (1000 * 2 ^ 24)" by (simp add: algebra_simps)
  have "A * cv / 2 ^ 24 \<le> (A / 1000 + A / (1000 * 2 ^ 24)) / 2 ^ 24"
    using a1 by (intro divide_right_mono) simp_all
  also have "\<dots> = A / (1000 * 2 ^ 24) + A / (1000 * 2 ^ 48)" by (simp add: field_simps)
  finally have a2: "A * cv / 2 ^ 24 \<le> A / (1000 * 2 ^ 24) + A / (1000 * 2 ^ 48)" .
  have p1u: "p1 \<le> A / 1000 + 2 * A / (1000 * 2 ^ 24) + A / (1000 * 2 ^ 48) + 1 / 2 ^ 150"
    using p1 a1 a2 acv by linarith
  have p1l: "- (1 / 2 ^ 150) \<le> p1"
  proof -
    have "A * cv / 2 ^ 24 \<le> A * cv" using A cv by (simp add: field_simps)
    then show ?thesis using p1 acv by linarith
  qed
  have "p1 * t \<le> (A / 1000 + 2 * A / (1000 * 2 ^ 24) + A / (1000 * 2 ^ 48) + 1 / 2 ^ 150) * t"
    using p1u t by (intro mult_right_mono) simp_all
  also have "\<dots> = P + 2 * P / 2 ^ 24 + P / 2 ^ 48 + t / 2 ^ 150"
    by (simp add: P_def field_simps)
  finally have u: "p1 * t \<le> P + 2 * P / 2 ^ 24 + P / 2 ^ 48 + t / 2 ^ 150" .
  have "- (1 / 2 ^ 150) * t \<le> p1 * t" using p1l t by (intro mult_right_mono) simp_all
  then have l: "- (t / 2 ^ 150) \<le> p1 * t" by simp
  have tb: "t / 2 ^ 150 \<le> 1 / 2 ^ 118" using t by (simp add: field_simps)
  have ab: "\<bar>p1 * t\<bar> \<le> P + 2 * P / 2 ^ 24 + P / 2 ^ 48 + 1 / 2 ^ 118"
    using u l tb P0 by (simp add: abs_le_iff)
  have "\<bar>p1 * t\<bar> / 2 ^ 24 \<le> (P + 2 * P / 2 ^ 24 + P / 2 ^ 48 + 1 / 2 ^ 118) / 2 ^ 24"
    using ab by (intro divide_right_mono) simp_all
  also have "\<dots> = P / 2 ^ 24 + 2 * P / 2 ^ 48 + P / 2 ^ 72 + 1 / 2 ^ 142" by (simp add: field_simps)
  finally have r: "\<bar>p1 * t\<bar> / 2 ^ 24 \<le> P / 2 ^ 24 + 2 * P / 2 ^ 48 + P / 2 ^ 72 + 1 / 2 ^ 142" .
  have s1: "2 * P / 2 ^ 24 + P / 2 ^ 48 + (P / 2 ^ 24 + 2 * P / 2 ^ 48 + P / 2 ^ 72) \<le> P / 2 ^ 22"
    using P0 by (simp add: field_simps)
  have c: "(1 / 2 ^ 118 :: real) + 1 / 2 ^ 142 + 1 / 2 ^ 150 \<le> 1 / 2 ^ 116" by simp
  have "mm \<le> p1 * t + \<bar>mm - p1 * t\<bar>" by linarith
  then have "mm \<le> P + P / 2 ^ 22 + 1 / 2 ^ 116" using m u r tb s1 c by linarith
  then show ?thesis by (simp add: P_def)
qed

lemma final_step_bound:
  fixes n l mm P :: real
  assumes 1: "\<bar>n - l\<bar> \<le> mm + mm / 2 ^ 23 + \<bar>l\<bar> / 2 ^ 24 + 1 / 2 ^ 149"
    and 2: "mm \<le> P + P / 2 ^ 22 + 1 / 2 ^ 116" and P: "0 \<le> P"
  shows "\<bar>n - l\<bar> \<le> P + P / 2 ^ 21 + \<bar>l\<bar> / 2 ^ 24 + 1 / 2 ^ 114"
proof -
  have "mm / 2 ^ 23 \<le> (P + P / 2 ^ 22 + 1 / 2 ^ 116) / 2 ^ 23"
    using 2 by (intro divide_right_mono) simp_all
  also have "\<dots> = P / 2 ^ 23 + P / 2 ^ 45 + 1 / 2 ^ 139" by (simp add: field_simps)
  finally have 3: "mm / 2 ^ 23 \<le> P / 2 ^ 23 + P / 2 ^ 45 + 1 / 2 ^ 139" .
  have s: "P / 2 ^ 22 + (P / 2 ^ 23 + P / 2 ^ 45) \<le> P / 2 ^ 21" using P by (simp add: field_simps)
  have c: "(1 / 2 ^ 116 :: real) + 1 / 2 ^ 139 + 1 / 2 ^ 149 \<le> 1 / 2 ^ 114" by simp
  show ?thesis using 1 2 3 s c by linarith
qed

lemma maxDelta_f_bound:
  assumes A: "0 \<le> MaxAccel cs" "MaxAccel cs < 2 ^ 24" and t: "0 \<le> t" "t \<le> 2 ^ 32"
  shows "\<exists>mm. maxDelta_f fl32 cs (Fin t) = Fin mm \<and> 0 \<le> mm \<and>
           mm \<le> real_of_int (MaxAccel cs) * t / 1000
                 + real_of_int (MaxAccel cs) * t / (1000 * 2 ^ 22) + 1 / 2 ^ 116"
proof -
  define A where "A = real_of_int (MaxAccel cs)"
  define cv :: real where "cv = 8589935 / 8589934592"
  have A0: "0 \<le> A" and A24: "A \<le> 2 ^ 24" using assms(1,2) by (simp_all add: A_def)
  have fa: "fl32 (real_of_int (MaxAccel cs)) = Fin A"
    unfolding A_def using assms(1,2) by (intro fl32_int) simp
  have cv: "0 \<le> cv" "cv \<le> 1 / 1000 + 1 / (1000 * 2 ^ 24)" "cv \<le> 1" by (simp_all add: cv_def)
  have acv: "0 \<le> A * cv" using A0 cv by simp
  have "A * cv \<le> 2 ^ 24 * 1" using A0 A24 cv by (intro mult_mono) simp_all
  then have acvu: "A * cv \<le> 2 ^ 24" by simp
  then have "\<bar>A * cv\<bar> \<le> 2 ^ 127" using acv by simp
  then obtain p1 where p1: "fl32 (A * cv) = Fin p1" using fl32_finite by blast
  have p10: "0 \<le> p1" by (rule fl32_nonneg[OF acv p1])
  have e1: "\<bar>p1 - A * cv\<bar> \<le> \<bar>A * cv\<bar> / 2 ^ 24 + 1 / 2 ^ 150" by (rule fl32_err[OF p1])
  have "\<bar>A * cv\<bar> / 2 ^ 24 \<le> 2 ^ 24 / 2 ^ 24" using acvu acv by (intro divide_right_mono) simp_all
  then have "p1 \<le> 2 ^ 24 + 1 + 1 / 2 ^ 150" using e1 acvu acv by (simp add: abs_le_iff) 
  then have p1u: "p1 \<le> 2 ^ 25" by simp
  have pt0: "0 \<le> p1 * t" using p10 t by simp
  have "p1 * t \<le> 2 ^ 25 * 2 ^ 32" using p1u p10 t by (intro mult_mono) simp_all
  then have "\<bar>p1 * t\<bar> \<le> 2 ^ 127" using pt0 by simp
  then obtain mm where mm: "fl32 (p1 * t) = Fin mm" using fl32_finite by blast
  have mm0: "0 \<le> mm" by (rule fl32_nonneg[OF pt0 mm])
  have e2: "\<bar>mm - p1 * t\<bar> \<le> \<bar>p1 * t\<bar> / 2 ^ 24 + 1 / 2 ^ 150" by (rule fl32_err[OF mm])
  have "mm \<le> A * t / 1000 + A * t / (1000 * 2 ^ 22) + 1 / 2 ^ 116"
    by (rule product_roundings[OF e1 e2 A0 t cv(1,2)])
  moreover have "maxDelta_f fl32 cs (Fin t) = Fin mm"
    by (simp add: maxDelta_f_def fa fl32_milli cv_def[symmetric] p1 mm)
  ultimately show ?thesis using mm0 unfolding A_def by blast
qed

lemma accelLimit_f_bound:
  assumes res: "accelLimit_f fl32 (Fin mm) (Fin l) a = Fin n" and mm: "0 \<le> mm"
  shows "\<bar>n - l\<bar> \<le> mm + mm / 2 ^ 23 + \<bar>l\<bar> / 2 ^ 24 + 1 / 2 ^ 149"
proof -
  have up: "fl32 (l + mm) = Fin n \<Longrightarrow> ?thesis"
  proof -
    assume "fl32 (l + mm) = Fin n"
    from fl32_err[OF this] have "\<bar>n - (l + mm)\<bar> \<le> \<bar>l + mm\<bar> / 2 ^ 24 + 1 / 2 ^ 150" .
    moreover have "\<bar>mm\<bar> = mm" using mm by simp
    ultimately show ?thesis by (rule limited_step)
  qed
  have down: "fl32 (l - mm) = Fin n \<Longrightarrow> ?thesis"
  proof -
    assume "fl32 (l - mm) = Fin n"
    from fl32_err[OF this] have "\<bar>n - (l + - mm)\<bar> \<le> \<bar>l + - mm\<bar> / 2 ^ 24 + 1 / 2 ^ 150" by simp
    moreover have "\<bar>- mm\<bar> = mm" using mm by simp
    ultimately show ?thesis by (rule limited_step)
  qed
  show ?thesis
  proof (cases a)
    case NaN
    with res show ?thesis by (simp add: accelLimit_f_def f_sub_def f_gt_def)
  next
    case PInf
    with res have "fl32 (l + mm) = Fin n" by (simp add: accelLimit_f_def f_sub_def f_gt_def)
    then show ?thesis by (rule up)
  next
    case NInf
    with res have "fl32 (l - mm) = Fin n" by (simp add: accelLimit_f_def f_sub_def f_gt_def)
    then show ?thesis by (rule down)
  next
    case (Fin av)
    show ?thesis
    proof (cases "fl32 (av - l)")
      case NaN
      then show ?thesis using fl32_not_NaN by blast
    next
      case PInf
      with res Fin have "fl32 (l + mm) = Fin n" by (simp add: accelLimit_f_def f_sub_def f_gt_def)
      then show ?thesis by (rule up)
    next
      case NInf
      with res Fin have "fl32 (l - mm) = Fin n" by (simp add: accelLimit_f_def f_sub_def f_gt_def)
      then show ?thesis by (rule down)
    next
      case dv: (Fin dv)
      show ?thesis
      proof (cases "mm < \<bar>dv\<bar>")
        case True
        with res Fin dv have "fl32 (l + mm) = Fin n \<or> fl32 (l - mm) = Fin n"
          by (auto simp add: accelLimit_f_def f_sub_def f_gt_def Let_def split: if_splits)
        then show ?thesis using up down by blast
      next
        case False
        with res Fin dv have n: "n = av"
          by (auto simp add: accelLimit_f_def f_sub_def f_gt_def Let_def split: if_splits)
        have "\<bar>dv - (av - l)\<bar> \<le> \<bar>av - l\<bar> / 2 ^ 24 + 1 / 2 ^ 150" by (rule fl32_err[OF dv])
        moreover have "\<bar>dv\<bar> \<le> mm" using False by simp
        ultimately have "\<bar>av - l\<bar> \<le> mm + mm / 2 ^ 23 + 1 / 2 ^ 149" by (rule unlimited_step)
        moreover have "0 \<le> \<bar>l\<bar> / 2 ^ 24" by simp
        ultimately show ?thesis unfolding n by linarith
      qed
    qed
  qed
qed

lemma accelLimit_f_exact_bound:
  assumes "accelLimit_f Fin (Fin mm) (Fin l) a = Fin n" "0 \<le> mm"
  shows "\<bar>n - l\<bar> \<le> mm"
  using assms
  by (cases a) (auto simp add: accelLimit_f_def f_sub_def f_gt_def Let_def split: if_splits)

lemma processInput_f_ffLAF:
  "ffLastAttitudeFiltered_f (processInput_f rnd cs acc dT i d) = ffLastAttitudeFiltered_f d"
  by (simp add: processInput_f_def Let_def split: input_sel.split option.split stab_mode.split)

lemma applyLPF_f_ffLAF:
  "ffLastAttitudeFiltered_f (snd (applyLPF_f b rnd cs dT i a d)) = ffLastAttitudeFiltered_f d"
  by (simp add: applyLPF_f_def Let_def)

lemma applyFeedForward_f_ffLAF:
  "\<exists>a2. ffLastAttitudeFiltered_f (snd (applyFeedForward_f rnd i dT a cs att d)) =
          (ffLastAttitudeFiltered_f d)(i :=
             accelLimit_f rnd (maxDelta_f rnd cs dT) (ffLastAttitudeFiltered_f d i) a2)"
  by (simp add: applyFeedForward_f_def Let_def) blast

lemma axisStages_f_ffLAF:
  "ffLastAttitudeFiltered_f (snd (axisStages_f b rnd env dT i d)) = ffLastAttitudeFiltered_f d \<or>
   (\<exists>a2. ffLastAttitudeFiltered_f (snd (axisStages_f b rnd env dT i d)) =
          (ffLastAttitudeFiltered_f d)(i :=
             accelLimit_f rnd (maxDelta_f rnd (cameraStabSettings_f env) dT)
               (ffLastAttitudeFiltered_f d i) a2))"
proof -
  let ?cs = "cameraStabSettings_f env"
  let ?d0 = "processInput_f rnd ?cs (accessoryDesired_f env) dT i d"
  obtain a1 d1 where l: "applyLPF_f b rnd ?cs dT i (attitudeState_f env i) ?d0 = (a1, d1)"
    by fastforce
  have d1: "ffLastAttitudeFiltered_f d1 = ffLastAttitudeFiltered_f d"
    using applyLPF_f_ffLAF[of b rnd ?cs dT i "attitudeState_f env i" ?d0]
    by (simp add: l processInput_f_ffLAF)
  have st: "axisStages_f b rnd env dT i d = applyFF_f b rnd ?cs (attitudeState_f env) dT i a1 d1"
    by (simp add: axisStages_f_def Let_def l)
  show ?thesis
  proof (cases "USE_GIMBAL_FF b \<and> FeedForward ?cs i \<noteq> 0")
    case True
    then show ?thesis
      using applyFeedForward_f_ffLAF[of rnd i dT a1 ?cs "attitudeState_f env" d1]
      by (simp add: st applyFF_f_def d1)
  next
    case False
    then show ?thesis by (auto simp add: st applyFF_f_def d1)
  qed
qed

lemma axisStages_f_ffLAF_other:
  "j \<noteq> i \<Longrightarrow> ffLastAttitudeFiltered_f (snd (axisStages_f b rnd env dT j d)) i =
               ffLastAttitudeFiltered_f d i"
  using axisStages_f_ffLAF[of b rnd env dT j d] by auto

lemma processAxis_f_ffLAF_other:
  "j \<noteq> i \<Longrightarrow> ffLastAttitudeFiltered_f (csd_f (processAxis_f b rnd env dT j s)) i =
               ffLastAttitudeFiltered_f (csd_f s) i"
  using axisStages_f_ffLAF[of b rnd env dT j "csd_f s"]
  by (auto simp add: processAxis_f_csd)

lemma processAxis_f_ffLAF_at:
  "ffLastAttitudeFiltered_f (csd_f (processAxis_f b rnd env dT i s)) i =
     ffLastAttitudeFiltered_f (csd_f s) i \<or>
   (\<exists>a2. ffLastAttitudeFiltered_f (csd_f (processAxis_f b rnd env dT i s)) i =
          accelLimit_f rnd (maxDelta_f rnd (cameraStabSettings_f env) dT)
            (ffLastAttitudeFiltered_f (csd_f s) i) a2)"
  using axisStages_f_ffLAF[of b rnd env dT i "csd_f s"]
  by (auto simp add: processAxis_f_csd)

lemma attitudeUpdated_f_ffLAF:
  "ffLastAttitudeFiltered_f (fst (attitudeUpdated_f b rnd env d)) i = ffLastAttitudeFiltered_f d i \<or>
   (\<exists>a2. ffLastAttitudeFiltered_f (fst (attitudeUpdated_f b rnd env d)) i =
          accelLimit_f rnd
            (maxDelta_f rnd (cameraStabSettings_f env)
               (dT_millis_f rnd (portTICK_RATE_MS b) (lastSysTime_f d) (taskTickCount_f env)))
            (ffLastAttitudeFiltered_f d i) a2)"
proof (cases "evObjIsAttitudeState_f env")
  case False
  then show ?thesis by (simp add: attitudeUpdated_f_def)
next
  case True
  let ?dT = "dT_millis_f rnd (portTICK_RATE_MS b) (lastSysTime_f d) (taskTickCount_f env)"
  define s0 where "s0 = \<lparr>csd_f = d\<lparr>lastSysTime_f := taskTickCount_f env\<rparr>, elevon_roll_f = Fin 0,
                         desired_f = []\<rparr>"
  define s1 where "s1 = processAxis_f b rnd env ?dT Roll s0"
  define s2 where "s2 = processAxis_f b rnd env ?dT Pitch s1"
  define s3 where "s3 = processAxis_f b rnd env ?dT Yaw s2"
  have d': "fst (attitudeUpdated_f b rnd env d) = csd_f s3"
    using True by (simp add: attitudeUpdated_f_def Let_def s0_def s1_def s2_def s3_def)
  have s0: "ffLastAttitudeFiltered_f (csd_f s0) = ffLastAttitudeFiltered_f d" by (simp add: s0_def)
  show ?thesis
  proof (cases i)
    case Roll
    have "ffLastAttitudeFiltered_f (csd_f s3) Roll = ffLastAttitudeFiltered_f (csd_f s1) Roll"
      unfolding s3_def s2_def by (simp add: processAxis_f_ffLAF_other)
    then show ?thesis
      using processAxis_f_ffLAF_at[of b rnd env ?dT Roll s0] unfolding d' Roll s1_def[symmetric] s0
      by simp
  next
    case Pitch
    have "ffLastAttitudeFiltered_f (csd_f s3) Pitch = ffLastAttitudeFiltered_f (csd_f s2) Pitch"
      unfolding s3_def by (simp add: processAxis_f_ffLAF_other)
    moreover have "ffLastAttitudeFiltered_f (csd_f s1) Pitch = ffLastAttitudeFiltered_f d Pitch"
      unfolding s1_def by (simp add: processAxis_f_ffLAF_other s0)
    ultimately show ?thesis
      using processAxis_f_ffLAF_at[of b rnd env ?dT Pitch s1] unfolding d' Pitch s2_def[symmetric]
      by simp
  next
    case Yaw
    have "ffLastAttitudeFiltered_f (csd_f s2) Yaw = ffLastAttitudeFiltered_f d Yaw"
      unfolding s2_def s1_def by (simp add: processAxis_f_ffLAF_other s0)
    then show ?thesis
      using processAxis_f_ffLAF_at[of b rnd env ?dT Yaw s2] unfolding d' Yaw s3_def[symmetric]
      by simp
  qed
qed

lemma attitudeUpdated_f_ffLAF_Roll:
  assumes "evObjIsAttitudeState_f env"
  shows "ffLastAttitudeFiltered_f (fst (attitudeUpdated_f b rnd env d)) Roll =
     ffLastAttitudeFiltered_f
       (snd (axisStages_f b rnd env
               (dT_millis_f rnd (portTICK_RATE_MS b) (lastSysTime_f d) (taskTickCount_f env)) Roll
               (d\<lparr>lastSysTime_f := taskTickCount_f env\<rparr>))) Roll"
  using assms
  by (simp add: attitudeUpdated_f_def Let_def processAxis_f_csd axisStages_f_ffLAF_other)

lemma feed_forward_acceleration_limit_exact:
  assumes last: "ffLastAttitudeFiltered_f d i = Fin l"
    and new: "ffLastAttitudeFiltered_f (fst (attitudeUpdated_f b Fin env d)) i = Fin n"
    and accel: "0 \<le> MaxAccel (cameraStabSettings_f env)"
    and dT: "dT_millis_f Fin (portTICK_RATE_MS b) (lastSysTime_f d) (taskTickCount_f env) = Fin t"
  shows "\<bar>n - l\<bar> \<le> real_of_int (MaxAccel (cameraStabSettings_f env)) * t / 1000"
proof -
  have t0: "0 \<le> t"
  proof (cases "taskTickCount_f env > lastSysTime_f d")
    case True
    then have "t = real (unat ((taskTickCount_f env - lastSysTime_f d) * portTICK_RATE_MS b))"
      using dT unfolding dT_millis_f_def by (simp only: if_True cfloat.inject)
    then show ?thesis by (simp only: of_nat_0_le_iff)
  next
    case False
    then show ?thesis using dT by (simp add: dT_millis_f_def)
  qed
  have mm: "maxDelta_f Fin (cameraStabSettings_f env) (Fin t) =
              Fin (real_of_int (MaxAccel (cameraStabSettings_f env)) * t / 1000)"
    by (simp add: maxDelta_f_def)
  have mm0: "0 \<le> real_of_int (MaxAccel (cameraStabSettings_f env)) * t / 1000"
    using accel t0 by simp
  show ?thesis
    using attitudeUpdated_f_ffLAF[of b Fin env d i]
  proof
    assume "ffLastAttitudeFiltered_f (fst (attitudeUpdated_f b Fin env d)) i =
            ffLastAttitudeFiltered_f d i"
    then have "n = l" using last new by simp
    then show ?thesis using mm0 by simp
  next
    assume "\<exists>a2. ffLastAttitudeFiltered_f (fst (attitudeUpdated_f b Fin env d)) i =
          accelLimit_f Fin
            (maxDelta_f Fin (cameraStabSettings_f env)
               (dT_millis_f Fin (portTICK_RATE_MS b) (lastSysTime_f d) (taskTickCount_f env)))
            (ffLastAttitudeFiltered_f d i) a2"
    then obtain a2 where
      "accelLimit_f Fin (Fin (real_of_int (MaxAccel (cameraStabSettings_f env)) * t / 1000))
         (Fin l) a2 = Fin n"
      using new by (auto simp add: dT mm last)
    then show ?thesis using mm0 by (rule accelLimit_f_exact_bound)
  qed
qed

lemma ex_ff_slow_stage:
  "ffLastAttitudeFiltered_f
     (snd (axisStages_f ex_build fl32 (ex_env_f ex_ff_slow) (Fin 10) Roll
             (ex_csd_f\<lparr>lastSysTime_f := 110\<rparr>))) Roll = Fin (1006633 / 33554432)"
  by (simp add: stage_f_eval ex_defs ex_f_defs ex_ff_slow_def fl32_numeral fl32_milli
      ex_accel_rounding)

lemma ex_ff_slow_tick:
  "ffLastAttitudeFiltered_f (fst (attitudeUpdated_f ex_build fl32 (ex_env_f ex_ff_slow) ex_csd_f)) Roll
     = Fin (1006633 / 33554432)"
proof -
  have ev: "evObjIsAttitudeState_f (ex_env_f ex_ff_slow)" by (simp add: ex_f_defs)
  have t: "taskTickCount_f (ex_env_f ex_ff_slow) = 110" by (simp add: ex_f_defs)
  show ?thesis
    by (subst attitudeUpdated_f_ffLAF_Roll[OF ev], subst ex_dT_f, subst t, rule ex_ff_slow_stage)
qed

lemma accel_limit_step_exceeds_maxDelta:
  "maxDelta_f fl32 (ex_ff\<lparr>MaxAccel := 7\<rparr>) (Fin 10) = Fin (9395241 / 134217728) \<and>
   accelLimit_f fl32 (Fin (9395241 / 134217728)) (Fin 170) (Fin 180) = Fin (2786427 / 16384) \<and>
   (9395241 / 134217728 :: real) < 2786427 / 16384 - 170"
  by (simp add: maxDelta_f_def accelLimit_f_def f_sub_def f_gt_def Let_def fl32_numeral fl32_milli
      ex_accel_rounding)

lemma zero_range_feed_forward_nan:
  "OutputRange (cameraStabSettings_f (ex_env_f ex_yrp_zero_ff)) Pitch = 0 \<and>
   ffLastAttitudeFiltered_f ex_csd_f Roll = Fin 0 \<and>
   ffLastAttitudeFiltered_f
     (fst (attitudeUpdated_f ex_build fl32 (ex_env_f ex_yrp_zero_ff) ex_csd_f)) Roll = NaN"
proof -
  have ev: "evObjIsAttitudeState_f (ex_env_f ex_yrp_zero_ff)" by (simp add: ex_f_defs)
  have t: "taskTickCount_f (ex_env_f ex_yrp_zero_ff) = 110" by (simp add: ex_f_defs)
  have "ffLastAttitudeFiltered_f
     (snd (axisStages_f ex_build fl32 (ex_env_f ex_yrp_zero_ff) (Fin 10) Roll
             (ex_csd_f\<lparr>lastSysTime_f := 110\<rparr>))) Roll = NaN"
    by (simp add: stage_f_eval ex_defs ex_f_defs ex_s_defs fl32_numeral fl32_neg_numeral fl32_milli
        ex_half_rounding)
  then have "ffLastAttitudeFiltered_f
     (fst (attitudeUpdated_f ex_build fl32 (ex_env_f ex_yrp_zero_ff) ex_csd_f)) Roll = NaN"
    by (subst attitudeUpdated_f_ffLAF_Roll[OF ev], subst ex_dT_f, subst t)
  then show ?thesis by (simp add: ex_defs ex_f_defs ex_s_defs)
qed

text \<open>
  C2 (amended). In binary32, for \<open>0 \<le> MaxAccel < 2 ^ 24\<close> (so that the cast of line 333
  is exact), every axis and every invocation of the callback: the elapsed time is a finite
  \<open>t \<ge> 0\<close>, and if the stored \<open>ffLastAttitudeFiltered\<close> is finite before (\<open>l\<close>) and after
  (\<open>n\<close>) the invocation, then \<open>\<bar>n - l\<bar> \<le> M + M / 2 ^ 21 + \<bar>l\<bar> / 2 ^ 24 + 1 / 2 ^ 114\<close> for
  \<open>M = MaxAccel * t / 1000\<close>. (An axis without feed forward keeps its value.) The bound \<open>M\<close>
  itself does not hold: \<^verbatim>\<open>0.001f\<close> is 8589935/8589934592, above 1/1000, and the two products
  of line 333 and the sum of line 337 are rounded. With \<open>MaxAccel = 3\<close>, \<open>t = 10\<close> and
  \<open>l = 0\<close> the stored value moves by 1006633/33554432, more than 3/100; from \<open>l = 170\<close>
  with \<open>MaxAccel = 7\<close> it moves by more than the computed \<^verbatim>\<open>maxDelta\<close>
  (\<open>accel_limit_step_exceeds_maxDelta\<close>). In exact arithmetic the bound is \<open>M\<close>
  (\<open>feed_forward_acceleration_limit_exact\<close>). The stored value does not stay finite when
  the geometry correction divides by a zero output range
  (\<open>zero_range_feed_forward_nan\<close>).
\<close>

theorem feed_forward_acceleration_limit_binary32:
  assumes last: "ffLastAttitudeFiltered_f d i = Fin l"
    and new: "ffLastAttitudeFiltered_f (fst (attitudeUpdated_f b fl32 env d)) i = Fin n"
    and accel: "0 \<le> MaxAccel (cameraStabSettings_f env)" "MaxAccel (cameraStabSettings_f env) < 2 ^ 24"
  shows "\<exists>t. dT_millis_f fl32 (portTICK_RATE_MS b) (lastSysTime_f d) (taskTickCount_f env) = Fin t \<and>
             0 \<le> t \<and>
             \<bar>n - l\<bar> \<le> real_of_int (MaxAccel (cameraStabSettings_f env)) * t / 1000
                        + real_of_int (MaxAccel (cameraStabSettings_f env)) * t / 1000 / 2 ^ 21
                        + \<bar>l\<bar> / 2 ^ 24 + 1 / 2 ^ 114"
proof -
  let ?cs = "cameraStabSettings_f env"
  let ?A = "real_of_int (MaxAccel ?cs)"
  obtain t where t: "dT_millis_f fl32 (portTICK_RATE_MS b) (lastSysTime_f d) (taskTickCount_f env) = Fin t"
    and t0: "0 \<le> t" and t32: "t \<le> 2 ^ 32"
    using dT_millis_f_fl32 by blast
  have P0: "0 \<le> ?A * t / 1000" using accel(1) t0 by simp
  obtain mm where mm: "maxDelta_f fl32 ?cs (Fin t) = Fin mm" and mm0: "0 \<le> mm"
    and mmu: "mm \<le> ?A * t / 1000 + ?A * t / (1000 * 2 ^ 22) + 1 / 2 ^ 116"
    using maxDelta_f_bound[OF accel t0 t32] by blast
  have mmu': "mm \<le> ?A * t / 1000 + ?A * t / 1000 / 2 ^ 22 + 1 / 2 ^ 116" using mmu by simp
  have "\<bar>n - l\<bar> \<le> mm + mm / 2 ^ 23 + \<bar>l\<bar> / 2 ^ 24 + 1 / 2 ^ 149"
    using attitudeUpdated_f_ffLAF[of b fl32 env d i]
  proof
    assume "ffLastAttitudeFiltered_f (fst (attitudeUpdated_f b fl32 env d)) i =
            ffLastAttitudeFiltered_f d i"
    then have "n = l" using last new by simp
    moreover have "0 \<le> mm / 2 ^ 23" "0 \<le> \<bar>l\<bar> / 2 ^ 24" using mm0 by simp_all
    ultimately show ?thesis using mm0 by simp
  next
    assume "\<exists>a2. ffLastAttitudeFiltered_f (fst (attitudeUpdated_f b fl32 env d)) i =
          accelLimit_f fl32
            (maxDelta_f fl32 ?cs
               (dT_millis_f fl32 (portTICK_RATE_MS b) (lastSysTime_f d) (taskTickCount_f env)))
            (ffLastAttitudeFiltered_f d i) a2"
    then obtain a2 where "accelLimit_f fl32 (Fin mm) (Fin l) a2 = Fin n"
      using new by (auto simp add: t mm last)
    then show ?thesis using mm0 by (rule accelLimit_f_bound)
  qed
  then have "\<bar>n - l\<bar> \<le> ?A * t / 1000 + ?A * t / 1000 / 2 ^ 21 + \<bar>l\<bar> / 2 ^ 24 + 1 / 2 ^ 114"
    using mmu' P0 by (rule final_step_bound)
  then show ?thesis using t t0 by blast
qed

theorem feed_forward_acceleration_limit_binary32_witness:
  "ffLastAttitudeFiltered_f ex_csd_f Roll = Fin 0 \<and>
   ffLastAttitudeFiltered_f (fst (attitudeUpdated_f ex_build fl32 (ex_env_f ex_ff_slow) ex_csd_f)) Roll
     = Fin (1006633 / 33554432) \<and>
   0 \<le> MaxAccel (cameraStabSettings_f (ex_env_f ex_ff_slow)) \<and>
   MaxAccel (cameraStabSettings_f (ex_env_f ex_ff_slow)) < 2 ^ 24 \<and>
   dT_millis_f fl32 (portTICK_RATE_MS ex_build) (lastSysTime_f ex_csd_f)
     (taskTickCount_f (ex_env_f ex_ff_slow)) = Fin 10 \<and>
   \<bar>1006633 / 33554432 - 0\<bar> \<le>
     real_of_int (MaxAccel (cameraStabSettings_f (ex_env_f ex_ff_slow))) * 10 / 1000
     + real_of_int (MaxAccel (cameraStabSettings_f (ex_env_f ex_ff_slow))) * 10 / 1000 / 2 ^ 21
     + \<bar>0\<bar> / 2 ^ 24 + 1 / 2 ^ 114"
proof -
  have l: "ffLastAttitudeFiltered_f ex_csd_f Roll = Fin 0" by (simp add: ex_f_defs)
  have a: "0 \<le> MaxAccel (cameraStabSettings_f (ex_env_f ex_ff_slow))"
    "MaxAccel (cameraStabSettings_f (ex_env_f ex_ff_slow)) < 2 ^ 24"
    by (simp_all add: ex_defs ex_f_defs ex_ff_slow_def)
  show ?thesis
    using feed_forward_acceleration_limit_binary32[OF l ex_ff_slow_tick a] l ex_ff_slow_tick a
    by (auto simp add: ex_dT_f)
qed

theorem feed_forward_acceleration_limit_counterexample:
  "FeedForward (cameraStabSettings_f (ex_env_f ex_ff_slow)) Roll \<noteq> 0 \<and>
   MaxAccel (cameraStabSettings_f (ex_env_f ex_ff_slow)) = 3 \<and>
   dT_millis_f fl32 (portTICK_RATE_MS ex_build) (lastSysTime_f ex_csd_f)
     (taskTickCount_f (ex_env_f ex_ff_slow)) = Fin 10 \<and>
   ffLastAttitudeFiltered_f ex_csd_f Roll = Fin 0 \<and>
   ffLastAttitudeFiltered_f (fst (attitudeUpdated_f ex_build fl32 (ex_env_f ex_ff_slow) ex_csd_f)) Roll
     = Fin (1006633 / 33554432) \<and>
   \<not> \<bar>1006633 / 33554432 - 0\<bar> \<le> (3 * 10 / 1000 :: real)"
  using ex_ff_slow_tick by (simp add: ex_dT_f) (simp add: ex_defs ex_f_defs ex_ff_slow_def)

subsection \<open>Divisions by the output range\<close>






lemma gimbalTypeCorrection_f_none:
  "ff_orthogonal (GimbalType cs) i = None \<Longrightarrow> gimbalTypeCorrection_f rnd cs att i = Fin 1"
  by (cases "GimbalType cs"; cases i) (simp_all add: gimbalTypeCorrection_f_def)


















subsection \<open>Agreement of the two embeddings\<close>

text \<open>
  Where the first embedding has a result, the second computes the same finite values when
  it does not round: the first embedding is the second in exact arithmetic, restricted to
  the invocations in which no divisor is zero.
\<close>

lemma env_embed_simps:
  "evObjIsAttitudeState_f (env_embed env) = evObjIsAttitudeState env"
  "cameraStabSettings_f (env_embed env) = cameraStabSettings env"
  "taskTickCount_f (env_embed env) = taskTickCount env"
  "accessoryDesired_f (env_embed env) = (\<lambda>n. map_option Fin (accessoryDesired env n))"
  "attitudeState_f (env_embed env) = (\<lambda>i. Fin (attitudeState env i))"
  by (simp_all add: env_embed_def)

lemma Fin_upd: "(\<lambda>j. Fin (f j))(i := Fin v) = (\<lambda>j. Fin ((f(i := v)) j))"
  by auto

lemma bound_f_Fin: "bound_f (Fin v) (Fin l) = Fin (bound v l)"
  by (simp add: bound_f_def bound_def f_gt_def)

lemma processInput_embed:
  "processInput_f Fin cs (\<lambda>n. map_option Fin (acc n)) (Fin dT) i (csd_embed d) =
     csd_embed (processInput cs acc dT i d)"
  by (simp add: processInput_f_def processInput_def csd_embed_def Let_def Fin_upd bound_f_Fin
      f_gt_def split: input_sel.split option.split stab_mode.split)

lemma applyLPF_embed:
  assumes "applyLPF b cs dT i a d = Some (a', d')"
  shows "applyLPF_f b Fin cs (Fin dT) i (Fin a) (csd_embed d) = (Fin a', csd_embed d')"
  using assms
  by (auto simp add: applyLPF_f_def applyLPF_def lpfValue_f_def lpfValue_def fdiv_def
      csd_embed_def Let_def Fin_upd split: if_splits option.splits)

lemma gimbalTypeCorrection_embed:
  assumes "gimbalTypeCorrection cs att i = Some c"
  shows "gimbalTypeCorrection_f Fin cs (\<lambda>j. Fin (att j)) i = Fin c"
  using assms
  by (auto simp add: gimbalTypeCorrection_f_def gimbalTypeCorrection_def fdiv_def f_sub_def
      split: gimbal_type.splits if_splits)

lemma accelLimit_f_Fin:
  "accelLimit_f Fin (Fin m) (Fin l) (Fin x) =
     Fin (if \<bar>x - l\<bar> > m then l + (if x - l > 0 then m else - m) else x)"
  by (simp add: accelLimit_f_def f_sub_def f_gt_def Let_def)

lemma maxDelta_f_Fin:
  "maxDelta_f Fin cs (Fin dT) = Fin (real_of_int (MaxAccel cs) * (1 / 1000) * dT)"
  by (simp add: maxDelta_f_def)

lemma applyFeedForward_embed:
  assumes "applyFeedForward i dT a cs att d = Some (a', d')"
  shows "applyFeedForward_f Fin i (Fin dT) (Fin a) cs (\<lambda>j. Fin (att j)) (csd_embed d) =
           (Fin a', csd_embed d')"
proof -
  from assms obtain c where c: "gimbalTypeCorrection cs att i = Some c"
    by (auto simp add: applyFeedForward_def split: option.splits)
  note cf = gimbalTypeCorrection_embed[OF c]
  define acc where "acc = ffFilterAccumulator d i
                 + (a - ffLastAttitude d i) * real_of_int (FeedForward cs i) * c"
  define tc where "tc = real_of_int (if acc > 0 then AccelTime cs i else DecelTime cs i)"
  define filt where "filt = (if tc / dT < 1 then 1 else tc / dT)"
  define acc2 where "acc2 = acc - acc / filt"
  define att2 where "att2 = a + acc + acc2"
  define md where "md = real_of_int (MaxAccel cs) * (1 / 1000) * dT"
  define att3 where "att3 = (if \<bar>att2 - ffLastAttitudeFiltered d i\<bar> > md
       then ffLastAttitudeFiltered d i + (if att2 - ffLastAttitudeFiltered d i > 0 then md else - md)
       else att2)"
  have r: "applyFeedForward i dT a cs att d =
     (if dT = 0 \<or> filt = 0 then None
      else Some (att3, d\<lparr>ffLastAttitude := (ffLastAttitude d)(i := a),
                          ffFilterAccumulator := (ffFilterAccumulator d)(i := acc2),
                          ffLastAttitudeFiltered := (ffLastAttitudeFiltered d)(i := att3)\<rparr>))"
    unfolding applyFeedForward_def c option.case Let_def fdiv_def
      acc_def[symmetric] tc_def[symmetric]
    by (simp add: filt_def[symmetric] acc2_def[symmetric] att2_def[symmetric] md_def[symmetric]
        del: times_divide_eq_left times_divide_eq_right)
      (auto simp add: att3_def)
  from assms have nz: "dT \<noteq> 0" "filt \<noteq> 0"
    and res: "a' = att3"
      "d' = d\<lparr>ffLastAttitude := (ffLastAttitude d)(i := a),
             ffFilterAccumulator := (ffFilterAccumulator d)(i := acc2),
             ffLastAttitudeFiltered := (ffLastAttitudeFiltered d)(i := att3)\<rparr>"
    unfolding r by (auto split: if_splits)
  have A: "f_add Fin (ffFilterAccumulator_f (csd_embed d) i)
              (f_mul Fin (f_mul Fin (f_sub Fin (Fin a) (ffLastAttitude_f (csd_embed d) i))
                                    (Fin (real_of_int (FeedForward cs i)))) (Fin c)) = Fin acc"
    by (simp add: csd_embed_def f_sub_def acc_def)
  have B: "f_gt (Fin acc) (Fin 0) = (0 < acc)" by (simp add: f_gt_def)
  have C: "f_div Fin (Fin (real_of_int (if 0 < acc then AccelTime cs i else DecelTime cs i)))
             (Fin dT) = Fin (tc / dT)"
    using nz by (simp add: tc_def)
  have D: "(if f_lt (Fin (tc / dT)) (Fin 1) then Fin 1 else Fin (tc / dT)) = Fin filt"
    by (simp add: filt_def)
  have E: "f_sub Fin (Fin acc) (f_div Fin (Fin acc) (Fin filt)) = Fin acc2"
    using nz by (simp add: f_sub_def acc2_def)
  have F: "f_add Fin (f_add Fin (Fin a) (Fin acc)) (Fin acc2) = Fin att2"
    by (simp add: att2_def)
  have G: "maxDelta_f Fin cs (Fin dT) = Fin md"
    by (simp add: maxDelta_f_Fin md_def)
  show ?thesis
    unfolding applyFeedForward_f_def cf Let_def A B C D E F G
    by (auto simp add: csd_embed_def accelLimit_f_Fin att3_def res fun_eq_iff)
qed

lemma applyFF_embed:
  assumes "applyFF b cs att dT i a d = Some (a', d')"
  shows "applyFF_f b Fin cs (\<lambda>j. Fin (att j)) (Fin dT) i (Fin a) (csd_embed d) =
           (Fin a', csd_embed d')"
  using assms applyFeedForward_embed[of i dT a cs att d a' d']
  by (auto simp add: applyFF_f_def applyFF_def split: if_splits)

lemma setOutputChannels_embed:
  "setOutputChannels_f Fin cs i (Fin v) (Fin er, sink_embed out) =
     (Fin (fst (setOutputChannels cs i v (er, out))),
      sink_embed (snd (setOutputChannels cs i v (er, out))))"
  by (cases i)
    (simp_all add: sink_embed_def servo1Mix_f_def servo1Mix_def servo2Mix_f_def servo2Mix_def
      f_sub_def)

lemma processAxis_embed:
  assumes "processAxis b env dT i s = Some s'"
  shows "processAxis_f b Fin (env_embed env) (Fin dT) i (loop_embed s) = loop_embed s'"
proof -
  let ?cs = "cameraStabSettings env"
  let ?d0 = "processInput ?cs (accessoryDesired env) dT i (csd s)"
  from assms obtain a1 d1 a2 d2 q where
    l: "applyLPF b ?cs dT i (attitudeState env i) ?d0 = Some (a1, d1)"
    and f: "applyFF b ?cs (attitudeState env) dT i a1 d1 = Some (a2, d2)"
    and q: "fdiv (a2 + inputs d2 i) (OutputRange ?cs i) = Some q"
    and s': "s' = \<lparr>csd = d2,
               elevon_roll = fst (setOutputChannels ?cs i (bound q 1) (elevon_roll s, desired s)),
               desired = snd (setOutputChannels ?cs i (bound q 1) (elevon_roll s, desired s))\<rparr>"
    by (auto simp add: processAxis_def Let_def split: option.splits prod.splits)
  have st: "axisStages_f b Fin (env_embed env) (Fin dT) i (csd_embed (csd s)) =
              (Fin a2, csd_embed d2)"
    by (simp add: axisStages_f_def env_embed_simps Let_def processInput_embed
        applyLPF_embed[OF l] applyFF_embed[OF f])
  have o: "axisOutput_f Fin ?cs i (Fin a2) (inputs_f (csd_embed d2) i) = Fin (bound q 1)"
    using q by (auto simp add: axisOutput_f_def csd_embed_def fdiv_def bound_f_Fin split: if_splits)
  show ?thesis
    by (simp add: processAxis_f_def Let_def loop_embed_def st o s' env_embed_simps
        setOutputChannels_embed)
qed

lemma exact_embedding_agrees:
  assumes "attitudeUpdated b env d = Some (d', out)"
  shows "attitudeUpdated_f b Fin (env_embed env) (csd_embed d) = (csd_embed d', sink_embed out)"
proof (cases "evObjIsAttitudeState env")
  case False
  with assms show ?thesis
    by (auto simp add: attitudeUpdated_def attitudeUpdated_f_def env_embed_def sink_embed_def)
next
  case True
  let ?dT = "dT_millis_of (portTICK_RATE_MS b) (lastSysTime d) (taskTickCount env)"
  from assms True obtain s1 s2 s3 where
    r: "processAxis b env ?dT Roll
       \<lparr>csd = d\<lparr>lastSysTime := taskTickCount env\<rparr>, elevon_roll = 0, desired = []\<rparr> = Some s1"
    and p: "processAxis b env ?dT Pitch s1 = Some s2"
    and y: "processAxis b env ?dT Yaw s2 = Some s3"
    and d': "d' = csd s3" and out: "out = desired s3"
    by (auto simp add: attitudeUpdated_def Let_def split: option.splits)
  have dT: "dT_millis_f Fin (portTICK_RATE_MS b) (lastSysTime d) (taskTickCount env) = Fin ?dT"
    by (simp add: dT_millis_f_def dT_millis_of_def)
  have s0: "\<lparr>csd_f = csd_embed d\<lparr>lastSysTime_f := taskTickCount env\<rparr>, elevon_roll_f = Fin 0,
              desired_f = []\<rparr> =
            loop_embed \<lparr>csd = d\<lparr>lastSysTime := taskTickCount env\<rparr>, elevon_roll = 0, desired = []\<rparr>"
    by (simp add: loop_embed_def csd_embed_def sink_embed_def)
  have l: "lastSysTime_f (csd_embed d) = lastSysTime d" by (simp add: csd_embed_def)
  have 1: "processAxis_f b Fin (env_embed env) (Fin ?dT) Roll
             \<lparr>csd_f = csd_embed d\<lparr>lastSysTime_f := taskTickCount env\<rparr>, elevon_roll_f = Fin 0,
                desired_f = []\<rparr> = loop_embed s1"
    unfolding s0 by (rule processAxis_embed[OF r])
  have "attitudeUpdated_f b Fin (env_embed env) (csd_embed d) =
          (csd_f (loop_embed s3), desired_f (loop_embed s3))"
    using True
    by (simp add: attitudeUpdated_f_def Let_def env_embed_simps l dT 1 processAxis_embed[OF p]
        processAxis_embed[OF y])
  then show ?thesis by (simp add: loop_embed_def d' out)
qed

end
